theory Spec2Isabelle
  imports Main "HOL-Library.Word"
begin

unbundle bit_operations_syntax

section \<open>GenericMQTTClient: a shallow embedding\<close>

text \<open>
  The client of \<^verbatim>\<open>GenericMQTTClient.h\<close> is a C++ template over a \<^verbatim>\<open>Network\<close> and a
  \<^verbatim>\<open>Timer\<close>. Every member function becomes a HOL function over an explicit state;
  every loop becomes a recursive function with its termination proof.
\<close>

subsection \<open>Topic matching\<close>

text \<open>
  \<^verbatim>\<open>isTopicMatched(char* topicFilter, MQTTString& topicName)\<close>. The filter is a C
  string: reading it at its length gives the terminating NUL. The topic name is a
  length-delimited string; \<^verbatim>\<open>curn_end\<close> is its length. Pointers are indices.
\<close>

definition NUL :: char where
  "NUL = CHR 0x00"

definition deref :: "string \<Rightarrow> nat \<Rightarrow> char" where
  "deref s i = (if i < length s then s ! i else NUL)"

text \<open>
  The inner loop of the \<^verbatim>\<open>'+'\<close> branch:
  \<^verbatim>\<open>while (nextpos < curn_end && *nextpos != '/') nextpos = ++curn + 1;\<close>
  It returns the final \<^verbatim>\<open>curn\<close>.
\<close>

function skip_level :: "string \<Rightarrow> nat \<Rightarrow> nat \<Rightarrow> nat" where
  "skip_level topicName curn nextpos =
     (if nextpos < length topicName \<and> topicName ! nextpos \<noteq> CHR ''/''
      then skip_level topicName (curn + 1) (curn + 1 + 1)
      else curn)"
  by pat_completeness auto
termination
  by (relation "measures [\<lambda>(n, c, np). if np = c + 1 then 0 else 1, \<lambda>(n, c, np). length n - c]") auto

declare skip_level.simps [simp del]

text \<open>
  The outer loop; it returns the final \<^verbatim>\<open>(curf, curn)\<close>. The two \<^verbatim>\<open>break\<close>s leave
  the loop with the pointers as they are.
\<close>

function topic_loop :: "string \<Rightarrow> string \<Rightarrow> nat \<Rightarrow> nat \<Rightarrow> nat \<times> nat" where
  "topic_loop topicFilter topicName curf curn =
     (if deref topicFilter curf \<noteq> NUL \<and> curn < length topicName then
        if topicName ! curn = CHR ''/'' \<and> deref topicFilter curf \<noteq> CHR ''/'' then (curf, curn)
        else if deref topicFilter curf \<noteq> CHR ''+'' \<and> deref topicFilter curf \<noteq> CHR ''#''
                \<and> deref topicFilter curf \<noteq> topicName ! curn then (curf, curn)
        else
          let curn' =
            (if deref topicFilter curf = CHR ''+'' then skip_level topicName curn (curn + 1)
             else if deref topicFilter curf = CHR ''#'' then length topicName - 1
             else curn)
          in topic_loop topicFilter topicName (curf + 1) (curn' + 1)
      else (curf, curn))"
  by pat_completeness auto
termination
  by (relation "measure (\<lambda>(f, n, curf, curn). length f - curf)") (auto simp: deref_def split: if_splits)

declare topic_loop.simps [simp del]

definition isTopicMatched :: "string \<Rightarrow> string \<Rightarrow> bool" where
  "isTopicMatched topicFilter topicName =
     (case topic_loop topicFilter topicName 0 0 of
        (curf, curn) \<Rightarrow> curn = length topicName \<and> deref topicFilter curf = NUL)"

subsection \<open>Return codes, packet types, configuration\<close>

type_synonym byte = "8 word"
type_synonym ushort = "16 word"

text \<open>
  Modelled from the spec: the return codes of \<^verbatim>\<open>MQTTCommon.h\<close>, a header that is not
  among the sources. The spec gives 0 for success and has \<^verbatim>\<open>FAILURE\<close> and
  \<^verbatim>\<open>BUFFER_OVERFLOW\<close> negative; the doc comment of \<^verbatim>\<open>readPacket\<close> (``or -1 if none'',
  for a result that starts as \<^verbatim>\<open>FAILURE\<close>) has \<^verbatim>\<open>FAILURE = -1\<close>. The two label
  different cases of the \<^verbatim>\<open>switch\<close> in \<^verbatim>\<open>cycle\<close>, so they differ.
\<close>

definition SUCCESS :: int where "SUCCESS = 0"
definition FAILURE :: int where "FAILURE = - 1"
definition BUFFER_OVERFLOW :: int where "BUFFER_OVERFLOW = - 2"

text \<open>
  Modelled from the spec: the packet types of \<^verbatim>\<open>utility/MQTTPacket.h\<close>
  (\<^verbatim>\<open>enum msgTypes\<close>), which the spec fixes as those of MQTT 3.1.1: the high nibble of
  the first byte of a packet.
\<close>

definition CONNECT :: int where "CONNECT = 1"
definition CONNACK :: int where "CONNACK = 2"
definition PUBLISH :: int where "PUBLISH = 3"
definition PUBACK :: int where "PUBACK = 4"
definition PUBREC :: int where "PUBREC = 5"
definition PUBREL :: int where "PUBREL = 6"
definition PUBCOMP :: int where "PUBCOMP = 7"
definition SUBSCRIBE :: int where "SUBSCRIBE = 8"
definition SUBACK :: int where "SUBACK = 9"
definition UNSUBSCRIBE :: int where "UNSUBSCRIBE = 10"
definition UNSUBACK :: int where "UNSUBACK = 11"
definition PINGREQ :: int where "PINGREQ = 12"
definition PINGRESP :: int where "PINGRESP = 13"
definition DISCONNECT :: int where "DISCONNECT = 14"

text \<open>
  Modelled from the spec: \<^verbatim>\<open>enum MQTTQoS { QOS0, QOS1, QOS2 }\<close> of \<^verbatim>\<open>MQTTCommon.h\<close>, the
  three delivery levels of the spec; \<^verbatim>\<open>cycle\<close> reads a QoS from the wire into an \<^verbatim>\<open>int\<close>.
\<close>

definition QOS0 :: int where "QOS0 = 0"
definition QOS1 :: int where "QOS1 = 1"
definition QOS2 :: int where "QOS2 = 2"

lemmas code_defs = SUCCESS_def FAILURE_def BUFFER_OVERFLOW_def
lemmas type_defs = CONNECT_def CONNACK_def PUBLISH_def PUBACK_def PUBREC_def PUBREL_def
  PUBCOMP_def SUBSCRIBE_def SUBACK_def UNSUBSCRIBE_def UNSUBACK_def PINGREQ_def PINGRESP_def
  DISCONNECT_def
lemmas qos_defs = QOS0_def QOS1_def QOS2_def

text \<open>
  The template parameter \<^verbatim>\<open>MAX_MQTT_PACKET_SIZE\<close> and the preprocessor switches
  \<^verbatim>\<open>MQTTCLIENT_QOS1\<close> and \<^verbatim>\<open>MQTTCLIENT_QOS2\<close>, whose values are set outside the sources:
  they are parameters of every function that depends on them. The other two capacities,
  \<^verbatim>\<open>MAX_MESSAGE_HANDLERS\<close> and \<^verbatim>\<open>MAX_INCOMING_QOS2_MESSAGES\<close>, are the lengths of the
  arrays \<open>messageHandlers\<close> and \<open>incomingQoS2messages\<close> of the state.
\<close>

record config =
  MAX_MQTT_PACKET_SIZE :: int
  MQTTCLIENT_QOS1 :: bool
  MQTTCLIENT_QOS2 :: bool

subsection \<open>The client and its environment\<close>

text \<open>
  Modelled from the spec: the \<^verbatim>\<open>Network\<close> template parameter, under the transport
  contract of the spec. A read returns the number of bytes read, a negative number on
  error, and 0 or a short count when the time allowed passes without (enough) data. The
  transport's behaviour is a script: the inbound byte stream in chunks, interleaved with
  errors and silences; each event says how many milliseconds pass before it. When the
  script is over nothing more arrives and a read waits for its whole timeout.
  A write returns the number of bytes accepted or a negative number; when its script is
  over, the transport accepts whatever it is given.
\<close>

datatype rx_event = Data "byte list" nat | NetError nat nat | Timeout

datatype tx_event = Accept nat nat | WriteError nat nat

text \<open>
  Modelled from the spec: \<^verbatim>\<open>FP<void, MQTTMessage&>\<close> of \<^verbatim>\<open>FP.h\<close> (not among the
  sources), a message callback that is attached or not. The callbacks are the user's
  code: an attached one is named by a number, and calling it is recorded in the state
  with the message it was given.
\<close>

type_synonym FP = "nat option"

text \<open>
  Modelled from the spec: the structures \<^verbatim>\<open>MQTTPacket\<close> and \<^verbatim>\<open>MQTTMessage\<close> of
  \<^verbatim>\<open>MQTTCommon.h\<close>, with the fields that \<^verbatim>\<open>cycle\<close> and \<^verbatim>\<open>deliverMessage\<close> fill: the
  flags, the packet id (\<^verbatim>\<open>id\<close> in the source) and the payload of a PUBLISH, and the
  message with its topic name as a handler receives it.
\<close>

record MQTTPacket =
  dup :: byte
  qos :: int
  retained :: byte
  msgid :: ushort
  payload :: "byte list"

record MQTTMessage =
  topicName :: string
  message :: MQTTPacket

text \<open>
  The data members of \<^verbatim>\<open>GenericMQTTClient\<close>, followed by the environment: the two
  scripts of the transport, the bytes it has accepted so far, the clock in milliseconds,
  and the calls made to message handlers. A \<^verbatim>\<open>Timer\<close> is the time at which it expires.
  The null \<^verbatim>\<open>topicFilter\<close> of an empty handler slot is \<open>None\<close>.
\<close>

record client =
  command_timeout_ms :: nat
  sendbuf :: "byte list"
  readbuf :: "byte list"
  last_sent :: nat
  last_received :: nat
  keepAliveInterval :: nat
  ping_outstanding :: bool
  cleansession :: bool
  packetid :: ushort
  messageHandlers :: "(string option \<times> FP) list"
  defaultMessageHandler :: FP
  isconnected :: bool
  pubbuf :: "byte list"
  inflightLen :: int
  inflightMsgid :: ushort
  inflightQoS :: int
  pubrel :: bool
  incomingQoS2messages :: "ushort list"
  net_rx :: "rx_event list"
  net_tx :: "tx_event list"
  net_sent :: "byte list"
  clock_ms :: nat
  handler_calls :: "(nat \<times> MQTTMessage) list"

text \<open>
  Modelled from the spec: the \<^verbatim>\<open>Timer\<close> template parameter, under the clock contract of
  the spec (construct with a millisecond deadline, \<^verbatim>\<open>expired()\<close>, \<^verbatim>\<open>left_ms()\<close>,
  \<^verbatim>\<open>countdown(seconds)\<close>, \<^verbatim>\<open>countdown_ms(ms)\<close>).
\<close>

definition expired :: "nat \<Rightarrow> client \<Rightarrow> bool" where
  "expired timer st = (timer \<le> clock_ms st)"

definition left_ms :: "nat \<Rightarrow> client \<Rightarrow> int" where
  "left_ms timer st = int timer - int (clock_ms st)"

definition countdown_ms :: "nat \<Rightarrow> client \<Rightarrow> nat" where
  "countdown_ms ms st = clock_ms st + ms"

definition countdown :: "nat \<Rightarrow> client \<Rightarrow> nat" where
  "countdown seconds st = countdown_ms (seconds * 1000) st"

text \<open>
  \<^verbatim>\<open>ipstack.read(buf, len, timeout)\<close>: the return code, the bytes put into \<^verbatim>\<open>buf\<close>, and
  the state after the call. Bytes of a chunk that were not asked for stay in the stream.
\<close>

definition ipstack_read :: "int \<Rightarrow> int \<Rightarrow> client \<Rightarrow> int \<times> byte list \<times> client" where
  "ipstack_read len timeout st =
     (case net_rx st of
        [] \<Rightarrow> (0, [], st\<lparr>clock_ms := clock_ms st + nat timeout\<rparr>)
      | Timeout # es \<Rightarrow> (0, [], st\<lparr>net_rx := es, clock_ms := clock_ms st + nat timeout\<rparr>)
      | NetError n t # es \<Rightarrow> (- int (Suc n), [], st\<lparr>net_rx := es, clock_ms := clock_ms st + t\<rparr>)
      | Data bs t # es \<Rightarrow>
          (int (length (take (nat len) bs)), take (nat len) bs,
           st\<lparr>net_rx := (if drop (nat len) bs = [] then es else Data (drop (nat len) bs) 0 # es),
              clock_ms := clock_ms st + t\<rparr>))"

text \<open>
  \<^verbatim>\<open>ipstack.write(buf, len, timeout)\<close>, given the \<^verbatim>\<open>len\<close> bytes at \<^verbatim>\<open>buf\<close>: the return
  code and the state, in which the accepted bytes are appended to \<open>net_sent\<close>.
\<close>

definition ipstack_write :: "byte list \<Rightarrow> int \<Rightarrow> int \<Rightarrow> client \<Rightarrow> int \<times> client" where
  "ipstack_write bytes len timeout st =
     (case net_tx st of
        [] \<Rightarrow> (len, st\<lparr>net_sent := net_sent st @ bytes\<rparr>)
      | Accept n t # es \<Rightarrow>
          (int (min n (nat len)),
           st\<lparr>net_tx := es, net_sent := net_sent st @ take (min n (nat len)) bytes,
              clock_ms := clock_ms st + t\<rparr>)
      | WriteError n t # es \<Rightarrow> (- int (Suc n), st\<lparr>net_tx := es, clock_ms := clock_ms st + t\<rparr>))"

text \<open>
  Writing bytes into a buffer from an offset. The buffers are arrays of fixed size: a
  write past the end (undefined in C++, and excluded by the length checks of the code
  when the buffer has at least five bytes) leaves the buffer as it is.
\<close>

fun store :: "byte list \<Rightarrow> nat \<Rightarrow> byte list \<Rightarrow> byte list" where
  "store buf off [] = buf"
| "store buf off (b # bs) = store (buf[off := b]) (Suc off) bs"

subsection \<open>Sending a packet\<close>

text \<open>
  The loop of \<^verbatim>\<open>sendPacket\<close>:
  \<^verbatim>\<open>while (sent < length && !timer.expired()) { rc = write(...); if (rc < 0) break; sent += rc; }\<close>
  It returns the final \<^verbatim>\<open>sent\<close>.
\<close>

function sendPacket_loop :: "int \<Rightarrow> nat \<Rightarrow> int \<Rightarrow> client \<Rightarrow> int \<times> client" where
  "sendPacket_loop len timer sent st =
     (if sent < len \<and> \<not> expired timer st then
        (case ipstack_write (take (nat (len - sent)) (drop (nat sent) (sendbuf st)))
                (len - sent) (left_ms timer st) st of
           (rc, st') \<Rightarrow> if rc < 0 then (sent, st') else sendPacket_loop len timer (sent + rc) st')
      else (sent, st))"
  by pat_completeness auto
termination
  by (relation "measures [\<lambda>(len, timer, sent, st). length (net_tx st),
                          \<lambda>(len, timer, sent, st). nat (len - sent)]")
     (auto simp: ipstack_write_def split: list.splits tx_event.splits)

declare sendPacket_loop.simps [simp del]

definition sendPacket :: "int \<Rightarrow> nat \<Rightarrow> client \<Rightarrow> int \<times> client" where
  "sendPacket len timer st =
     (case sendPacket_loop len timer 0 st of
        (sent, st') \<Rightarrow>
          if sent = len then
            (SUCCESS,
             if keepAliveInterval st' > 0
             then st'\<lparr>last_sent := countdown (keepAliveInterval st') st'\<rparr> else st')
          else (FAILURE, st'))"

subsection \<open>Reading a packet\<close>

text \<open>
  The \<^verbatim>\<open>do ... while\<close> of \<^verbatim>\<open>decodePacket\<close>, entered with the current \<^verbatim>\<open>len\<close>,
  \<^verbatim>\<open>multiplier\<close> and \<^verbatim>\<open>*value\<close>. Both \<^verbatim>\<open>goto exit\<close> and the end of the loop lead to
  \<^verbatim>\<open>return len\<close>: the local \<^verbatim>\<open>rc\<close> that was set to \<^verbatim>\<open>MQTTPACKET_READ_ERROR\<close> is not
  returned. The result is \<^verbatim>\<open>(len, *value)\<close> and the state.
\<close>

function decodePacket_loop :: "int \<Rightarrow> int \<Rightarrow> int \<Rightarrow> int \<Rightarrow> client \<Rightarrow> (int \<times> int) \<times> client" where
  "decodePacket_loop timeout len multiplier val st =
     (if len + 1 > 4 then ((len + 1, val), st)
      else
        (case ipstack_read 1 timeout st of
           (rc, data, st') \<Rightarrow>
             if rc \<noteq> 1 then ((len + 1, val), st')
             else
               (case data of
                  [] \<Rightarrow> ((len + 1, val), st')
                | c # _ \<Rightarrow>
                    if c AND 128 \<noteq> 0
                    then decodePacket_loop timeout (len + 1) (multiplier * 128)
                           (val + uint (c AND 127) * multiplier) st'
                    else ((len + 1, val + uint (c AND 127) * multiplier), st'))))"
  by pat_completeness auto
termination
  by (relation "measure (\<lambda>(timeout, len, multiplier, val, st). nat (5 - len))") auto

declare decodePacket_loop.simps [simp del]

definition decodePacket :: "int \<Rightarrow> client \<Rightarrow> (int \<times> int) \<times> client" where
  "decodePacket timeout st = decodePacket_loop timeout 0 1 0 st"

text \<open>
  Modelled from the spec: \<^verbatim>\<open>MQTTPacket_encode\<close> of the packet library (not among the
  sources), the Remaining Length encoding of MQTT 3.1.1: seven bits per byte, least
  significant group first, the top bit set on every byte but the last. It gives the
  bytes it writes; their number is what the C function returns.
\<close>

function MQTTPacket_encode :: "int \<Rightarrow> byte list" where
  "MQTTPacket_encode n =
     (if n div 128 > 0 then (word_of_int (n mod 128) OR 128) # MQTTPacket_encode (n div 128)
      else [word_of_int (n mod 128)])"
  by pat_completeness auto
termination
  by (relation "measure nat") auto

declare MQTTPacket_encode.simps [simp del]

text \<open>
  Modelled from the spec: \<^verbatim>\<open>header.bits.type\<close> of the \<^verbatim>\<open>MQTTHeader\<close> union of the packet
  library: the packet type, in the high nibble of the first byte.
\<close>

definition header_type :: "byte \<Rightarrow> int" where
  "header_type b = uint (drop_bit 4 b)"

text \<open>
  \<^verbatim>\<open>readPacket\<close>. The result of \<^verbatim>\<open>decodePacket\<close> is dropped, as in the source; only
  \<^verbatim>\<open>rem_len\<close> is used.
\<close>

definition readPacket :: "config \<Rightarrow> nat \<Rightarrow> client \<Rightarrow> int \<times> client" where
  "readPacket cfg timer st =
     (case ipstack_read 1 (left_ms timer st) st of
        (rc1, data1, st1) \<Rightarrow>
          if rc1 \<noteq> 1 then (FAILURE, st1\<lparr>readbuf := store (readbuf st1) 0 data1\<rparr>)
          else
            (case decodePacket (left_ms timer st1) (st1\<lparr>readbuf := store (readbuf st1) 0 data1\<rparr>) of
               ((dlen, rem_len), st2) \<Rightarrow>
                 let st3 = st2\<lparr>readbuf := store (readbuf st2) 1 (MQTTPacket_encode rem_len)\<rparr>;
                     len = 1 + int (length (MQTTPacket_encode rem_len))
                 in
                   if rem_len > MAX_MQTT_PACKET_SIZE cfg - len then (BUFFER_OVERFLOW, st3)
                   else
                     (case (if rem_len > 0 then ipstack_read rem_len (left_ms timer st3) st3
                            else (rem_len, [], st3)) of
                        (rc2, data2, st4) \<Rightarrow>
                          let st5 = st4\<lparr>readbuf := store (readbuf st4) (nat len) data2\<rparr>
                          in
                            if rem_len > 0 \<and> rc2 \<noteq> rem_len then (FAILURE, st5)
                            else
                              (header_type (readbuf st5 ! 0),
                               if keepAliveInterval st5 > 0
                               then st5\<lparr>last_received := countdown (keepAliveInterval st5) st5\<rparr>
                               else st5))))"

subsection \<open>The packet library\<close>

text \<open>
  Modelled from the spec: the serializers and deserializers of \<^verbatim>\<open>utility/MQTTPacket.h\<close>,
  which are not among the sources. The spec fixes the wire format as that of MQTT 3.1.1:
  one control byte (type in the high nibble, flags in the low one), the Remaining
  Length, then the variable header and the payload; integers are two bytes, big endian;
  strings are prefixed by their length. A serializer gives a positive length, or a
  non-positive number when the packet does not fit the buffer; a deserializer succeeds
  (the C functions return 1) or fails (\<open>None\<close>).
\<close>

definition MQTTPACKET_BUFFER_TOO_SHORT :: int where
  "MQTTPACKET_BUFFER_TOO_SHORT = - 2"

definition readInt :: "byte list \<Rightarrow> ushort" where
  "readInt bs = push_bit 8 (ucast (bs ! 0)) OR ucast (bs ! 1)"

definition writeInt :: "ushort \<Rightarrow> byte list" where
  "writeInt n = [ucast (drop_bit 8 n), ucast n]"

definition writeCString :: "string \<Rightarrow> byte list" where
  "writeCString s = writeInt (word_of_nat (length s)) @ map of_char s"

definition byte_to_char :: "byte \<Rightarrow> char" where
  "byte_to_char b =
     Char (bit b 0) (bit b 1) (bit b 2) (bit b 3) (bit b 4) (bit b 5) (bit b 6) (bit b 7)"

text \<open>The Remaining Length at the head of a byte list: its value and its size.\<close>

fun MQTTPacket_decodeBuf :: "nat \<Rightarrow> int \<Rightarrow> int \<Rightarrow> byte list \<Rightarrow> (int \<times> nat) option" where
  "MQTTPacket_decodeBuf n multiplier val [] = None"
| "MQTTPacket_decodeBuf n multiplier val (c # cs) =
     (if n \<ge> 4 then None
      else if c AND 128 \<noteq> 0
      then MQTTPacket_decodeBuf (Suc n) (multiplier * 128) (val + uint (c AND 127) * multiplier) cs
      else Some (val + uint (c AND 127) * multiplier, Suc n))"

text \<open>The bytes after the fixed header of the packet in a buffer, by its Remaining Length.\<close>

definition packet_body :: "byte list \<Rightarrow> byte list option" where
  "packet_body buf =
     (case MQTTPacket_decodeBuf 0 1 0 (drop 1 buf) of
        None \<Rightarrow> None
      | Some (rem_len, n) \<Rightarrow>
          if length (drop (1 + n) buf) < nat rem_len then None
          else Some (take (nat rem_len) (drop (1 + n) buf)))"

text \<open>
  A serializer writes its packet at the start of the buffer and gives its length, or
  leaves the buffer alone when the packet is longer than \<^verbatim>\<open>buflen\<close>.
\<close>

definition serialize :: "byte list \<Rightarrow> int \<Rightarrow> byte list \<Rightarrow> int \<times> byte list" where
  "serialize buf buflen bytes =
     (if int (length bytes) > buflen then (MQTTPACKET_BUFFER_TOO_SHORT, buf)
      else (int (length bytes), store buf 0 bytes))"

definition to_sendbuf :: "config \<Rightarrow> byte list \<Rightarrow> client \<Rightarrow> int \<times> client" where
  "to_sendbuf cfg bytes st =
     (case serialize (sendbuf st) (MAX_MQTT_PACKET_SIZE cfg) bytes of
        (len, buf) \<Rightarrow> (len, st\<lparr>sendbuf := buf\<rparr>))"

text \<open>PUBACK, PUBREC, PUBREL, PUBCOMP: the type, the DUP flag and the packet id.\<close>

definition ack_bytes :: "int \<Rightarrow> byte \<Rightarrow> ushort \<Rightarrow> byte list" where
  "ack_bytes packettype dp packetid' =
     (push_bit 4 (word_of_int packettype) OR push_bit 3 (dp AND 1)
        OR (if packettype = PUBREL then 2 else 0)) # 2 # writeInt packetid'"

definition MQTTSerialize_ack :: "config \<Rightarrow> int \<Rightarrow> byte \<Rightarrow> ushort \<Rightarrow> client \<Rightarrow> int \<times> client" where
  "MQTTSerialize_ack cfg packettype dp packetid' st = to_sendbuf cfg (ack_bytes packettype dp packetid') st"

definition MQTTDeserialize_ack :: "byte list \<Rightarrow> (int \<times> byte \<times> ushort) option" where
  "MQTTDeserialize_ack buf =
     (case packet_body buf of
        None \<Rightarrow> None
      | Some body \<Rightarrow>
          if length body < 2 then None
          else Some (header_type (buf ! 0), drop_bit 3 (buf ! 0) AND 1, readInt body))"

definition MQTTSerialize_pingreq :: "config \<Rightarrow> client \<Rightarrow> int \<times> client" where
  "MQTTSerialize_pingreq cfg st = to_sendbuf cfg [0xC0, 0] st"

text \<open>PUBLISH: the flags of the header, the topic, the packet id when QoS is not 0, the payload.\<close>

definition publish_bytes :: "byte \<Rightarrow> int \<Rightarrow> bool \<Rightarrow> ushort \<Rightarrow> string \<Rightarrow> byte list \<Rightarrow> byte list" where
  "publish_bytes dp q rt packetid' topic pl =
     (0x30 OR push_bit 3 (dp AND 1) OR push_bit 1 (word_of_int q AND 3) OR (if rt then 1 else 0))
       # MQTTPacket_encode (int (length (writeCString topic) + (if q > 0 then 2 else 0) + length pl))
       @ writeCString topic @ (if q > 0 then writeInt packetid' else []) @ pl"

definition MQTTSerialize_publish ::
    "config \<Rightarrow> byte \<Rightarrow> int \<Rightarrow> bool \<Rightarrow> ushort \<Rightarrow> string \<Rightarrow> byte list \<Rightarrow> client \<Rightarrow> int \<times> client" where
  "MQTTSerialize_publish cfg dp q rt packetid' topic pl st =
     to_sendbuf cfg (publish_bytes dp q rt packetid' topic pl) st"

text \<open>
  The deserialized PUBLISH: the topic name and the message. For QoS 0 the packet has no
  id, and the C function leaves \<^verbatim>\<open>msg.id\<close> as it was (\<^verbatim>\<open>msg\<close> is a fresh local of
  \<^verbatim>\<open>cycle\<close>); it is 0 here.
\<close>

definition MQTTDeserialize_publish :: "byte list \<Rightarrow> (string \<times> MQTTPacket) option" where
  "MQTTDeserialize_publish buf =
     (if buf = [] \<or> header_type (buf ! 0) \<noteq> PUBLISH then None
      else
        (case packet_body buf of
           None \<Rightarrow> None
         | Some body \<Rightarrow>
             if length body < 2 \<or> length body < 2 + unat (readInt body) then None
             else
               let h = buf ! 0;
                   q = uint (drop_bit 1 h AND 3);
                   topic = map byte_to_char (take (unat (readInt body)) (drop 2 body));
                   rest = drop (2 + unat (readInt body)) body
               in
                 if q > 0 then
                   (if length rest < 2 then None
                    else Some (topic, \<lparr>dup = drop_bit 3 h AND 1, qos = q, retained = h AND 1,
                                       msgid = readInt rest, payload = drop 2 rest\<rparr>))
                 else Some (topic, \<lparr>dup = drop_bit 3 h AND 1, qos = q, retained = h AND 1,
                                    msgid = 0, payload = rest\<rparr>)))"

text \<open>CONNECT, with the options of the spec, and CONNACK.\<close>

record MQTTPacket_connectData =
  MQTTVersion :: nat
  clientID :: string
  options_keepAliveInterval :: nat
  options_cleansession :: bool
  will :: "(string \<times> string \<times> int \<times> bool) option"
  username :: "string option"
  password :: "string option"

definition connect_flags :: "MQTTPacket_connectData \<Rightarrow> byte" where
  "connect_flags options =
     (if username options \<noteq> None then 0x80 else 0)
       OR (if password options \<noteq> None then 0x40 else 0)
       OR (case will options of
             None \<Rightarrow> 0
           | Some (wt, wm, wq, wr) \<Rightarrow>
               (if wr then 0x20 else 0) OR push_bit 3 (word_of_int wq AND 3) OR 0x04)
       OR (if options_cleansession options then 0x02 else 0)"

definition connect_bytes :: "MQTTPacket_connectData \<Rightarrow> byte list" where
  "connect_bytes options =
     (let body =
        (if MQTTVersion options = 3 then writeCString ''MQIsdp'' @ [3] else writeCString ''MQTT'' @ [4])
          @ [connect_flags options]
          @ writeInt (word_of_nat (options_keepAliveInterval options))
          @ writeCString (clientID options)
          @ (case will options of None \<Rightarrow> [] | Some (wt, wm, wq, wr) \<Rightarrow> writeCString wt @ writeCString wm)
          @ (case username options of None \<Rightarrow> [] | Some u \<Rightarrow> writeCString u)
          @ (case password options of None \<Rightarrow> [] | Some pw \<Rightarrow> writeCString pw)
      in 0x10 # MQTTPacket_encode (int (length body)) @ body)"

definition MQTTSerialize_connect :: "config \<Rightarrow> MQTTPacket_connectData \<Rightarrow> client \<Rightarrow> int \<times> client" where
  "MQTTSerialize_connect cfg options st = to_sendbuf cfg (connect_bytes options) st"

definition MQTTDeserialize_connack :: "byte list \<Rightarrow> (bool \<times> byte) option" where
  "MQTTDeserialize_connack buf =
     (if buf = [] \<or> header_type (buf ! 0) \<noteq> CONNACK then None
      else
        (case packet_body buf of
           None \<Rightarrow> None
         | Some body \<Rightarrow>
             if length body < 2 then None else Some (body ! 0 AND 1 \<noteq> 0, body ! 1)))"

text \<open>
  SUBSCRIBE with one topic filter, and SUBACK: the packet id and the return codes, of
  which \<^verbatim>\<open>subscribe\<close> reads the first into \<^verbatim>\<open>grantedQoS\<close>.
\<close>

definition subscribe_bytes :: "ushort \<Rightarrow> string \<Rightarrow> int \<Rightarrow> byte list" where
  "subscribe_bytes packetid' topicFilter q =
     0x82 # MQTTPacket_encode (int (2 + length (writeCString topicFilter) + 1))
       @ writeInt packetid' @ writeCString topicFilter @ [word_of_int q]"

definition MQTTSerialize_subscribe :: "config \<Rightarrow> ushort \<Rightarrow> string \<Rightarrow> int \<Rightarrow> client \<Rightarrow> int \<times> client" where
  "MQTTSerialize_subscribe cfg packetid' topicFilter q st =
     to_sendbuf cfg (subscribe_bytes packetid' topicFilter q) st"

definition MQTTDeserialize_suback :: "byte list \<Rightarrow> (ushort \<times> byte list) option" where
  "MQTTDeserialize_suback buf =
     (if buf = [] \<or> header_type (buf ! 0) \<noteq> SUBACK then None
      else
        (case packet_body buf of
           None \<Rightarrow> None
         | Some body \<Rightarrow>
             if length body < 2 \<or> length body > 3 then None
             else Some (readInt body, drop 2 body)))"

text \<open>
  Modelled from the spec: \<^verbatim>\<open>MQTTPacketId::getNext\<close> of \<^verbatim>\<open>MQTTCommon.h\<close>: it returns
  the current value and increments, skipping 0.
\<close>

definition getNext :: "client \<Rightarrow> ushort \<times> client" where
  "getNext st =
     (packetid st, st\<lparr>packetid := (if packetid st + 1 = 0 then 1 else packetid st + 1)\<rparr>)"

subsection \<open>The set of incoming QoS 2 packet ids\<close>

fun isQoS2msgidFree_loop :: "ushort list \<Rightarrow> ushort \<Rightarrow> bool" where
  "isQoS2msgidFree_loop [] i = True"
| "isQoS2msgidFree_loop (x # xs) i = (if x = i then False else isQoS2msgidFree_loop xs i)"

definition isQoS2msgidFree :: "ushort \<Rightarrow> client \<Rightarrow> bool" where
  "isQoS2msgidFree i st = isQoS2msgidFree_loop (incomingQoS2messages st) i"

fun useQoS2msgid_loop :: "ushort list \<Rightarrow> ushort \<Rightarrow> bool \<times> ushort list" where
  "useQoS2msgid_loop [] i = (False, [])"
| "useQoS2msgid_loop (x # xs) i =
     (if x = 0 then (True, i # xs)
      else (case useQoS2msgid_loop xs i of (r, xs') \<Rightarrow> (r, x # xs')))"

definition useQoS2msgid :: "ushort \<Rightarrow> client \<Rightarrow> bool \<times> client" where
  "useQoS2msgid i st =
     (case useQoS2msgid_loop (incomingQoS2messages st) i of
        (r, xs) \<Rightarrow> (r, st\<lparr>incomingQoS2messages := xs\<rparr>))"

fun freeQoS2msgid_loop :: "ushort list \<Rightarrow> ushort \<Rightarrow> ushort list" where
  "freeQoS2msgid_loop [] i = []"
| "freeQoS2msgid_loop (x # xs) i = (if x = i then 0 # xs else x # freeQoS2msgid_loop xs i)"

definition freeQoS2msgid :: "ushort \<Rightarrow> client \<Rightarrow> client" where
  "freeQoS2msgid i st = st\<lparr>incomingQoS2messages := freeQoS2msgid_loop (incomingQoS2messages st) i\<rparr>"

subsection \<open>Delivering a message\<close>

text \<open>
  Modelled from the spec: \<^verbatim>\<open>MQTTPacket_equals\<close> of the packet library, the equality of a
  length-delimited string and a C string.
\<close>

definition MQTTPacket_equals :: "string \<Rightarrow> string \<Rightarrow> bool" where
  "MQTTPacket_equals a b = (a = b)"

definition call_handler :: "nat \<Rightarrow> MQTTMessage \<Rightarrow> client \<Rightarrow> client" where
  "call_handler h md st = st\<lparr>handler_calls := handler_calls st @ [(h, md)]\<rparr>"

text \<open>The \<^verbatim>\<open>for\<close> loop of \<^verbatim>\<open>deliverMessage\<close> over the handler slots, threading \<^verbatim>\<open>rc\<close>.\<close>

fun deliverMessage_loop ::
    "(string option \<times> FP) list \<Rightarrow> string \<Rightarrow> MQTTPacket \<Rightarrow> int \<Rightarrow> client \<Rightarrow> int \<times> client" where
  "deliverMessage_loop [] topic msg rc st = (rc, st)"
| "deliverMessage_loop ((filter', fp) # hs) topic msg rc st =
     (case filter' of
        None \<Rightarrow> deliverMessage_loop hs topic msg rc st
      | Some f \<Rightarrow>
          if MQTTPacket_equals topic f \<or> isTopicMatched f topic then
            (case fp of
               None \<Rightarrow> deliverMessage_loop hs topic msg rc st
             | Some h \<Rightarrow>
                 deliverMessage_loop hs topic msg SUCCESS
                   (call_handler h \<lparr>topicName = topic, message = msg\<rparr> st))
          else deliverMessage_loop hs topic msg rc st)"

definition deliverMessage :: "string \<Rightarrow> MQTTPacket \<Rightarrow> client \<Rightarrow> int \<times> client" where
  "deliverMessage topic msg st =
     (case deliverMessage_loop (messageHandlers st) topic msg FAILURE st of
        (rc, st') \<Rightarrow>
          (case defaultMessageHandler st' of
             None \<Rightarrow> (rc, st')
           | Some h \<Rightarrow>
               if rc = FAILURE
               then (SUCCESS, call_handler h \<lparr>topicName = topic, message = msg\<rparr> st')
               else (rc, st')))"

subsection \<open>Keepalive and the cycle\<close>

definition keepalive :: "config \<Rightarrow> client \<Rightarrow> int \<times> client" where
  "keepalive cfg st =
     (if keepAliveInterval st = 0 then (SUCCESS, st)
      else if (expired (last_sent st) st \<or> expired (last_received st) st) \<and> \<not> ping_outstanding st then
        (case MQTTSerialize_pingreq cfg st of
           (len, st1) \<Rightarrow>
             if len > 0 then
               (case sendPacket len (countdown_ms 1000 st1) st1 of
                  (rc, st2) \<Rightarrow> (rc, if rc = SUCCESS then st2\<lparr>ping_outstanding := True\<rparr> else st2))
             else (FAILURE, st1))
      else (FAILURE, st))"

text \<open>
  The body of \<^verbatim>\<open>case PUBLISH\<close>, after the packet has been deserialized, in its two
  statements. First the delivery: at once when QoS 2 is not compiled in or the message
  is not QoS 2; for a QoS 2 message only when its id is free and can be recorded.
\<close>

definition cycle_PUBLISH_deliver :: "config \<Rightarrow> string \<Rightarrow> MQTTPacket \<Rightarrow> client \<Rightarrow> client" where
  "cycle_PUBLISH_deliver cfg topic msg st =
     (if MQTTCLIENT_QOS2 cfg then
        (if qos msg \<noteq> QOS2 then snd (deliverMessage topic msg st)
         else if isQoS2msgidFree (msgid msg) st then
           (case useQoS2msgid (msgid msg) st of
              (used, st') \<Rightarrow> if used then snd (deliverMessage topic msg st') else st')
         else st)
      else snd (deliverMessage topic msg st))"

text \<open>
  Then the acknowledgement. The result is \<^verbatim>\<open>rc\<close>, whether \<^verbatim>\<open>goto exit\<close> was taken
  (which skips \<^verbatim>\<open>keepalive\<close>), and the state. With neither QoS switch on, the \<^verbatim>\<open>break\<close>
  is not compiled and control falls into \<^verbatim>\<open>case PINGRESP\<close>.
\<close>

definition cycle_PUBLISH_ack :: "config \<Rightarrow> nat \<Rightarrow> MQTTPacket \<Rightarrow> client \<Rightarrow> int \<times> bool \<times> client" where
  "cycle_PUBLISH_ack cfg timer msg st =
     (if MQTTCLIENT_QOS1 cfg \<or> MQTTCLIENT_QOS2 cfg then
        (if qos msg \<noteq> QOS0 then
           (case (if qos msg = QOS1 then MQTTSerialize_ack cfg PUBACK 0 (msgid msg) st
                  else if qos msg = QOS2 then MQTTSerialize_ack cfg PUBREC 0 (msgid msg) st
                  else (0, st)) of
              (len, st1) \<Rightarrow>
                (case (if len \<le> 0 then (FAILURE, st1) else sendPacket len timer st1) of
                   (rc, st2) \<Rightarrow> (rc, rc = FAILURE, st2)))
         else (SUCCESS, False, st))
      else (SUCCESS, False, st\<lparr>ping_outstanding := False\<rparr>))"

text \<open>When the packet cannot be deserialized, \<^verbatim>\<open>goto exit\<close> is taken with \<^verbatim>\<open>rc = SUCCESS\<close>.\<close>

definition cycle_PUBLISH :: "config \<Rightarrow> nat \<Rightarrow> client \<Rightarrow> int \<times> bool \<times> client" where
  "cycle_PUBLISH cfg timer st =
     (case MQTTDeserialize_publish (readbuf st) of
        None \<Rightarrow> (SUCCESS, True, st)
      | Some (topic, msg) \<Rightarrow>
          cycle_PUBLISH_ack cfg timer msg (cycle_PUBLISH_deliver cfg topic msg st))"

text \<open>The body of \<^verbatim>\<open>case PUBREC: case PUBREL:\<close>, compiled under \<^verbatim>\<open>MQTTCLIENT_QOS2\<close>.\<close>

definition cycle_PUBREC_PUBREL :: "config \<Rightarrow> nat \<Rightarrow> int \<Rightarrow> client \<Rightarrow> int \<times> bool \<times> client" where
  "cycle_PUBREC_PUBREL cfg timer packet_type st =
     (case MQTTDeserialize_ack (readbuf st) of
        None \<Rightarrow> (FAILURE, True, st)
      | Some (type', dup', mypacketid) \<Rightarrow>
          (case MQTTSerialize_ack cfg (if packet_type = PUBREC then PUBREL else PUBCOMP) 0 mypacketid st of
             (len, st1) \<Rightarrow>
               if len \<le> 0 then (FAILURE, True, st1)
               else
                 (case sendPacket len timer st1 of
                    (rc, st2) \<Rightarrow>
                      if rc \<noteq> SUCCESS then (FAILURE, True, st2)
                      else (rc, False,
                            if packet_type = PUBREL then freeQoS2msgid mypacketid st2 else st2))))"

text \<open>The \<^verbatim>\<open>switch (packet_type)\<close> of \<^verbatim>\<open>cycle\<close>.\<close>

definition cycle_switch :: "config \<Rightarrow> nat \<Rightarrow> int \<Rightarrow> client \<Rightarrow> int \<times> bool \<times> client" where
  "cycle_switch cfg timer packet_type st =
     (if packet_type = FAILURE \<or> packet_type = BUFFER_OVERFLOW then (packet_type, False, st)
      else if packet_type = CONNACK \<or> packet_type = PUBACK \<or> packet_type = SUBACK
        then (SUCCESS, False, st)
      else if packet_type = PUBLISH then cycle_PUBLISH cfg timer st
      else if MQTTCLIENT_QOS2 cfg \<and> (packet_type = PUBREC \<or> packet_type = PUBREL)
        then cycle_PUBREC_PUBREL cfg timer packet_type st
      else if MQTTCLIENT_QOS2 cfg \<and> packet_type = PUBCOMP then (SUCCESS, False, st)
      else if packet_type = PINGRESP then (SUCCESS, False, st\<lparr>ping_outstanding := False\<rparr>)
      else (SUCCESS, False, st))"

text \<open>
  \<^verbatim>\<open>cycle\<close>: read a packet, dispatch on its type, call \<^verbatim>\<open>keepalive\<close> unless
  \<^verbatim>\<open>goto exit\<close> was taken, and return the packet type when \<^verbatim>\<open>rc\<close> is \<^verbatim>\<open>SUCCESS\<close>.
\<close>

definition cycle :: "config \<Rightarrow> nat \<Rightarrow> client \<Rightarrow> int \<times> client" where
  "cycle cfg timer st =
     (case readPacket cfg timer st of
        (packet_type, st1) \<Rightarrow>
          (case cycle_switch cfg timer packet_type st1 of
             (rc, to_exit, st2) \<Rightarrow>
               (if rc = SUCCESS then packet_type else rc,
                if to_exit then st2 else snd (keepalive cfg st2))))"

subsection \<open>Every cycle makes progress\<close>

text \<open>
  The loops of \<^verbatim>\<open>waitfor\<close> and \<^verbatim>\<open>yield\<close> call \<^verbatim>\<open>cycle\<close> until their timer expires.
  They end because every \<^verbatim>\<open>cycle\<close> starts with a read of one byte under the timer:
  either the read takes something off the transport's script, or the script is over and
  the read waits until the timer has expired. \<open>rx_size\<close> measures what is left of the
  script.
\<close>

fun rx_size :: "rx_event list \<Rightarrow> nat" where
  "rx_size [] = 0"
| "rx_size (Data bs t # es) = Suc (length bs) + rx_size es"
| "rx_size (NetError n t # es) = Suc (rx_size es)"
| "rx_size (Timeout # es) = Suc (rx_size es)"

definition later :: "client \<Rightarrow> client \<Rightarrow> bool" where
  "later st st' = (rx_size (net_rx st') \<le> rx_size (net_rx st) \<and> clock_ms st \<le> clock_ms st')"

lemma later_refl: "later st st"
  by (simp add: later_def)

lemma later_trans: "later a b \<Longrightarrow> later b c \<Longrightarrow> later a c"
  by (auto simp: later_def)

lemma later_upd [simp]:
  "later st (st'\<lparr>readbuf := x\<rparr>) = later st st'"
  "later st (st'\<lparr>sendbuf := y\<rparr>) = later st st'"
  "later st (st'\<lparr>last_sent := t\<rparr>) = later st st'"
  "later st (st'\<lparr>last_received := t\<rparr>) = later st st'"
  "later st (st'\<lparr>ping_outstanding := b\<rparr>) = later st st'"
  "later st (st'\<lparr>incomingQoS2messages := q\<rparr>) = later st st'"
  "later st (st'\<lparr>handler_calls := c\<rparr>) = later st st'"
  "later (st\<lparr>readbuf := x\<rparr>) st' = later st st'"
  "later (st\<lparr>sendbuf := y\<rparr>) st' = later st st'"
  "later (st\<lparr>handler_calls := c\<rparr>) st' = later st st'"
  "later (st\<lparr>ping_outstanding := b\<rparr>) st' = later st st'"
  "later (st\<lparr>incomingQoS2messages := q\<rparr>) st' = later st st'"
  by (simp_all add: later_def)

lemma ipstack_read_later:
  "ipstack_read len timeout st = (rc, d, st') \<Longrightarrow> later st st'"
  by (auto simp: ipstack_read_def later_def split: list.splits rx_event.splits if_splits)

lemma ipstack_write_later:
  "ipstack_write bytes len timeout st = (rc, st') \<Longrightarrow> later st st'"
  by (auto simp: ipstack_write_def later_def split: list.splits tx_event.splits)

lemma sendPacket_loop_later:
  "sendPacket_loop len timer sent st = (sent', st') \<Longrightarrow> later st st'"
proof (induction len timer sent st rule: sendPacket_loop.induct)
  case (1 len timer sent st)
  show ?case
  proof (cases "sent < len \<and> \<not> expired timer st")
    case True
    obtain rc st1 where w: "ipstack_write (take (nat (len - sent)) (drop (nat sent) (sendbuf st)))
                (len - sent) (left_ms timer st) st = (rc, st1)"
      by (cases "ipstack_write (take (nat (len - sent)) (drop (nat sent) (sendbuf st)))
                (len - sent) (left_ms timer st) st") auto
    have l1: "later st st1" using w by (rule ipstack_write_later)
    show ?thesis
    proof (cases "rc < 0")
      case True
      with \<open>sent < len \<and> \<not> expired timer st\<close> w "1.prems" l1 show ?thesis
        by (simp add: sendPacket_loop.simps [of len timer sent st])
    next
      case False
      with \<open>sent < len \<and> \<not> expired timer st\<close> w "1.prems"
      have "sendPacket_loop len timer (sent + rc) st1 = (sent', st')"
        by (simp add: sendPacket_loop.simps [of len timer sent st])
      then have "later st1 st'"
        by (rule "1.IH" [OF \<open>sent < len \<and> \<not> expired timer st\<close> w [symmetric] False])
      with l1 show ?thesis by (rule later_trans)
    qed
  next
    case False
    with "1.prems" show ?thesis
      by (simp add: sendPacket_loop.simps [of len timer sent st] later_refl)
  qed
qed

lemma sendPacket_later:
  assumes "sendPacket len timer st = (rc, st')"
  shows "later st st'"
proof -
  obtain sent st1 where l: "sendPacket_loop len timer 0 st = (sent, st1)"
    by (cases "sendPacket_loop len timer 0 st") auto
  have "later st st1" using l by (rule sendPacket_loop_later)
  moreover have "st' = st1 \<or> st' = st1\<lparr>last_sent := countdown (keepAliveInterval st1) st1\<rparr>"
    using assms l by (auto simp: sendPacket_def split: if_splits)
  ultimately show ?thesis by auto
qed

lemma decodePacket_loop_later:
  "decodePacket_loop timeout len multiplier val st = (r, st') \<Longrightarrow> later st st'"
proof (induction timeout len multiplier val st rule: decodePacket_loop.induct)
  case (1 timeout len multiplier val st)
  show ?case
  proof (cases "len + 1 > 4")
    case True
    with "1.prems" show ?thesis
      by (simp add: decodePacket_loop.simps [of timeout len multiplier val st] later_refl)
  next
    case False
    obtain rc d st1 where r: "ipstack_read 1 timeout st = (rc, d, st1)"
      by (cases "ipstack_read 1 timeout st") auto
    have l1: "later st st1" using r by (rule ipstack_read_later)
    show ?thesis
    proof (cases "rc = 1 \<and> d \<noteq> [] \<and> hd d AND 128 \<noteq> 0")
      case True
      then obtain c cs where d: "d = c # cs" by (cases d) auto
      from True d False r "1.prems"
      have call: "decodePacket_loop timeout (len + 1) (multiplier * 128)
              (val + uint (c AND 127) * multiplier) st1 = (r, st')"
        by (simp add: decodePacket_loop.simps [of timeout len multiplier val st])
      from True d have c1: "\<not> rc \<noteq> 1" and c2: "c AND 128 \<noteq> 0" by auto
      have "later st1 st'"
        by (rule "1.IH" [OF False r [symmetric] refl c1 d c2 call])
      with l1 show ?thesis by (rule later_trans)
    next
      case F2: False
      have "st' = st1"
        using F2 False r "1.prems"
        by (simp add: decodePacket_loop.simps [of timeout len multiplier val st]
                 split: list.splits if_splits)
      with l1 show ?thesis by simp
    qed
  qed
qed

lemma decodePacket_later: "decodePacket timeout st = (r, st') \<Longrightarrow> later st st'"
  unfolding decodePacket_def by (rule decodePacket_loop_later)

lemma expired_upd [simp]:
  "expired timer (st\<lparr>readbuf := x\<rparr>) = expired timer st"
  "expired timer (st\<lparr>sendbuf := y\<rparr>) = expired timer st"
  "expired timer (st\<lparr>last_sent := t\<rparr>) = expired timer st"
  "expired timer (st\<lparr>last_received := t\<rparr>) = expired timer st"
  "expired timer (st\<lparr>ping_outstanding := b\<rparr>) = expired timer st"
  "expired timer (st\<lparr>incomingQoS2messages := q\<rparr>) = expired timer st"
  "expired timer (st\<lparr>handler_calls := c\<rparr>) = expired timer st"
  by (simp_all add: expired_def)

definition progress :: "nat \<Rightarrow> client \<Rightarrow> client \<Rightarrow> bool" where
  "progress timer st st' =
     (later st st' \<and> (rx_size (net_rx st') < rx_size (net_rx st) \<or> expired timer st'))"

lemma progress_later: "progress timer a b \<Longrightarrow> later b c \<Longrightarrow> progress timer a c"
  by (auto simp: progress_def later_def expired_def)

lemma progress_upd [simp]:
  "progress timer st (st'\<lparr>readbuf := x\<rparr>) = progress timer st st'"
  "progress timer st (st'\<lparr>last_received := t\<rparr>) = progress timer st st'"
  by (simp_all add: progress_def)

lemma read_facts:
  "ipstack_read len timeout st = (rc, d, st') \<Longrightarrow>
   rx_size (net_rx st') \<le> rx_size (net_rx st) \<and> clock_ms st \<le> clock_ms st' \<and>
   (0 < len \<longrightarrow> rx_size (net_rx st') < rx_size (net_rx st) \<or> clock_ms st + nat timeout \<le> clock_ms st')"
  by (auto simp: ipstack_read_def split: list.splits rx_event.splits if_splits)

lemma decodePacket_facts:
  "decodePacket timeout st = (r, st') \<Longrightarrow>
   rx_size (net_rx st') \<le> rx_size (net_rx st) \<and> clock_ms st \<le> clock_ms st'"
  using decodePacket_later [of timeout st r st'] by (simp add: later_def)

lemma readPacket_progress:
  "readPacket cfg timer st = (rc, st') \<Longrightarrow> progress timer st st'"
  unfolding readPacket_def Let_def progress_def later_def expired_def left_ms_def
  by (auto split: prod.splits if_splits dest!: read_facts decodePacket_facts)

lemma to_sendbuf_facts:
  "to_sendbuf cfg bytes st = (len, st') \<Longrightarrow> net_rx st' = net_rx st \<and> clock_ms st' = clock_ms st"
  by (auto simp: to_sendbuf_def split: prod.splits)

lemma sendPacket_facts:
  "sendPacket len timer st = (rc, st') \<Longrightarrow>
   rx_size (net_rx st') \<le> rx_size (net_rx st) \<and> clock_ms st \<le> clock_ms st'"
  using sendPacket_later [of len timer st rc st'] by (simp add: later_def)

lemma deliverMessage_loop_env:
  "deliverMessage_loop hs topic msg rc st = (rc', st') \<Longrightarrow>
   net_rx st' = net_rx st \<and> clock_ms st' = clock_ms st"
  by (induction hs topic msg rc st rule: deliverMessage_loop.induct)
     (auto simp: call_handler_def split: option.splits if_splits)

lemma deliverMessage_env [simp]:
  "net_rx (snd (deliverMessage topic msg st)) = net_rx st"
  "clock_ms (snd (deliverMessage topic msg st)) = clock_ms st"
  by (auto simp: deliverMessage_def call_handler_def split: prod.splits option.splits
           dest: deliverMessage_loop_env)

lemma useQoS2msgid_env:
  "useQoS2msgid i st = (r, st') \<Longrightarrow> net_rx st' = net_rx st \<and> clock_ms st' = clock_ms st"
  by (auto simp: useQoS2msgid_def split: prod.splits)

lemma keepalive_later: "later st (snd (keepalive cfg st))"
  unfolding keepalive_def MQTTSerialize_pingreq_def later_def
  by (auto split: prod.splits if_splits simp: countdown_ms_def dest!: to_sendbuf_facts sendPacket_facts)

lemma cycle_PUBLISH_deliver_env:
  "net_rx (cycle_PUBLISH_deliver cfg topic msg st) = net_rx st"
  "clock_ms (cycle_PUBLISH_deliver cfg topic msg st) = clock_ms st"
  by (auto simp: cycle_PUBLISH_deliver_def split: prod.splits dest!: useQoS2msgid_env)

lemma cycle_PUBLISH_ack_later:
  "cycle_PUBLISH_ack cfg timer msg st = (rc, ex, st') \<Longrightarrow> later st st'"
  unfolding cycle_PUBLISH_ack_def MQTTSerialize_ack_def later_def
  by (auto split: prod.splits if_splits dest!: to_sendbuf_facts sendPacket_facts)

lemma cycle_PUBLISH_later:
  "cycle_PUBLISH cfg timer st = (rc, ex, st') \<Longrightarrow> later st st'"
  unfolding cycle_PUBLISH_def
  by (auto split: option.splits simp: later_def cycle_PUBLISH_deliver_env
           dest!: cycle_PUBLISH_ack_later [unfolded later_def])

lemma cycle_PUBREC_PUBREL_later:
  "cycle_PUBREC_PUBREL cfg timer packet_type st = (rc, ex, st') \<Longrightarrow> later st st'"
  unfolding cycle_PUBREC_PUBREL_def MQTTSerialize_ack_def later_def freeQoS2msgid_def
  by (auto split: prod.splits if_splits option.splits
           dest!: to_sendbuf_facts sendPacket_facts)

lemma cycle_switch_later:
  "cycle_switch cfg timer packet_type st = (rc, ex, st') \<Longrightarrow> later st st'"
  unfolding cycle_switch_def
  by (auto split: if_splits simp: later_refl dest: cycle_PUBLISH_later cycle_PUBREC_PUBREL_later)

lemma cycle_progress:
  assumes "cycle cfg timer st = (rc, st')"
  shows "progress timer st st'"
proof -
  obtain pt st1 where r: "readPacket cfg timer st = (pt, st1)"
    by (cases "readPacket cfg timer st") auto
  obtain rc2 ex st2 where sw: "cycle_switch cfg timer pt st1 = (rc2, ex, st2)"
    by (cases "cycle_switch cfg timer pt st1") auto
  have p1: "progress timer st st1" using r by (rule readPacket_progress)
  have l2: "later st1 st2" using sw by (rule cycle_switch_later)
  have "st' = (if ex then st2 else snd (keepalive cfg st2))"
    using assms r sw by (simp add: cycle_def)
  then have "later st2 st'"
    by (simp add: later_refl keepalive_later)
  with p1 l2 show ?thesis by (blast intro: progress_later later_trans)
qed


lemma cycle_progress_sym: "(rc, st') = cycle cfg timer st \<Longrightarrow> progress timer st st'"
  using cycle_progress [of cfg timer st rc st'] by simp

subsection \<open>Waiting for a packet\<close>

text \<open>
  \<^verbatim>\<open>do { if (timer.expired()) break; } while ((rc = cycle(timer)) != packet_type);\<close>
  entered with the current \<^verbatim>\<open>rc\<close>.
\<close>

function waitfor_loop :: "config \<Rightarrow> int \<Rightarrow> nat \<Rightarrow> int \<Rightarrow> client \<Rightarrow> int \<times> client" where
  "waitfor_loop cfg packet_type timer rc st =
     (if expired timer st then (rc, st)
      else
        (case cycle cfg timer st of
           (rc', st') \<Rightarrow>
             if rc' \<noteq> packet_type then waitfor_loop cfg packet_type timer rc' st'
             else (rc', st')))"
  by pat_completeness auto
termination
  apply (relation "measures [\<lambda>(cfg, packet_type, timer, rc, st). rx_size (net_rx st),
                             \<lambda>(cfg, packet_type, timer, rc, st). if expired timer st then 0 else 1]")
  subgoal by simp
  subgoal premises prems for cfg packet_type timer rc st rc' st'
    using cycle_progress_sym [OF prems(2)] prems(1) by (auto simp: progress_def later_def)
  done

declare waitfor_loop.simps [simp del]

definition waitfor :: "config \<Rightarrow> int \<Rightarrow> nat \<Rightarrow> client \<Rightarrow> int \<times> client" where
  "waitfor cfg packet_type timer st = waitfor_loop cfg packet_type timer FAILURE st"

text \<open>
  \<^verbatim>\<open>yield\<close>: \<^verbatim>\<open>while (!timer.expired()) { if (cycle(timer) < 0) { rc = FAILURE; break; } }\<close>
\<close>

function yield_loop :: "config \<Rightarrow> nat \<Rightarrow> client \<Rightarrow> int \<times> client" where
  "yield_loop cfg timer st =
     (if \<not> expired timer st then
        (case cycle cfg timer st of
           (r, st') \<Rightarrow> if r < 0 then (FAILURE, st') else yield_loop cfg timer st')
      else (SUCCESS, st))"
  by pat_completeness auto
termination
  apply (relation "measures [\<lambda>(cfg, timer, st). rx_size (net_rx st),
                             \<lambda>(cfg, timer, st). if expired timer st then 0 else 1]")
  subgoal by simp
  subgoal premises prems for cfg timer st r st'
    using cycle_progress_sym [OF prems(2)] prems(1) by (auto simp: progress_def later_def)
  done

declare yield_loop.simps [simp del]

definition yield :: "config \<Rightarrow> nat \<Rightarrow> client \<Rightarrow> int \<times> client" where
  "yield cfg timeout_ms st = yield_loop cfg (countdown_ms timeout_ms st) st"

subsection \<open>Publish, connect, subscribe\<close>

text \<open>
  The wait for the final ack in \<^verbatim>\<open>publish(int len, Timer& timer, enum MQTTQoS qos)\<close>,
  written twice in the source, for PUBACK and for PUBCOMP:
  \<^verbatim>\<open>if (waitfor(T, timer) == T) { if (MQTTDeserialize_ack(...) != 1) rc = FAILURE;
  else if (inflightMsgid == mypacketid) inflightMsgid = 0; } else rc = FAILURE;\<close>
\<close>

definition publish_wait :: "config \<Rightarrow> int \<Rightarrow> nat \<Rightarrow> int \<Rightarrow> client \<Rightarrow> int \<times> client" where
  "publish_wait cfg acktype timer rc st =
     (case waitfor cfg acktype timer st of
        (w, st1) \<Rightarrow>
          if w = acktype then
            (case MQTTDeserialize_ack (readbuf st1) of
               None \<Rightarrow> (FAILURE, st1)
             | Some (type', dup', mypacketid) \<Rightarrow>
                 (rc, if inflightMsgid st1 = mypacketid then st1\<lparr>inflightMsgid := 0\<rparr> else st1))
          else (FAILURE, st1))"

text \<open>
  The conditional block of \<^verbatim>\<open>publish(int len, Timer& timer, enum MQTTQoS qos)\<close> after
  the packet has been sent. The QoS 2 branch stands under \<^verbatim>\<open>#elif MQTTCLIENT_QOS2\<close>: it
  is compiled only when \<^verbatim>\<open>MQTTCLIENT_QOS1\<close> is off.
\<close>

definition publish_len_wait :: "config \<Rightarrow> nat \<Rightarrow> int \<Rightarrow> int \<Rightarrow> client \<Rightarrow> int \<times> client" where
  "publish_len_wait cfg timer q rc st =
     (if MQTTCLIENT_QOS1 cfg then
        (if q = QOS1 then publish_wait cfg PUBACK timer rc st else (rc, st))
      else if MQTTCLIENT_QOS2 cfg then
        (if q = QOS2 then publish_wait cfg PUBCOMP timer rc st else (rc, st))
      else (rc, st))"

text \<open>
  \<^verbatim>\<open>publish(int len, Timer& timer, enum MQTTQoS qos)\<close>: send, wait, and at \<^verbatim>\<open>exit\<close>
  clear \<^verbatim>\<open>isconnected\<close> unless \<^verbatim>\<open>rc\<close> is \<^verbatim>\<open>SUCCESS\<close>.
\<close>

definition publish_len :: "config \<Rightarrow> int \<Rightarrow> nat \<Rightarrow> int \<Rightarrow> client \<Rightarrow> int \<times> client" where
  "publish_len cfg len timer q st =
     (case sendPacket len timer st of
        (rc, st1) \<Rightarrow>
          if rc \<noteq> SUCCESS then (rc, st1\<lparr>isconnected := False\<rparr>)
          else
            (case publish_len_wait cfg timer q rc st1 of
               (rc', st2) \<Rightarrow> (rc', if rc' \<noteq> SUCCESS then st2\<lparr>isconnected := False\<rparr> else st2)))"

text \<open>
  \<^verbatim>\<open>publish(topicName, payload, payloadlen, id, qos, retained)\<close>; \<^verbatim>\<open>id\<close> is passed by
  reference, so it is returned with the result.
\<close>

definition publish ::
    "config \<Rightarrow> string \<Rightarrow> byte list \<Rightarrow> ushort \<Rightarrow> int \<Rightarrow> bool \<Rightarrow> client \<Rightarrow> int \<times> ushort \<times> client" where
  "publish cfg topic pl id' q rt st =
     (let timer = countdown_ms (command_timeout_ms st) st in
      if \<not> isconnected st then (FAILURE, id', st)
      else
        (case (if (MQTTCLIENT_QOS1 cfg \<or> MQTTCLIENT_QOS2 cfg) \<and> (q = QOS1 \<or> q = QOS2)
               then getNext st else (id', st)) of
           (id'', st1) \<Rightarrow>
             (case MQTTSerialize_publish cfg 0 q rt id'' topic pl st1 of
                (len, st2) \<Rightarrow>
                  if len \<le> 0 then (FAILURE, id'', st2)
                  else
                    (case publish_len cfg len timer q
                            (if (MQTTCLIENT_QOS1 cfg \<or> MQTTCLIENT_QOS2 cfg) \<and> \<not> cleansession st2
                             then st2\<lparr>pubbuf := store (pubbuf st2) 0 (take (nat len) (sendbuf st2)),
                                      inflightMsgid := id'', inflightLen := len, inflightQoS := q,
                                      pubrel := (if MQTTCLIENT_QOS2 cfg then False else pubrel st2)\<rparr>
                             else st2) of
                       (rc, st3) \<Rightarrow> (rc, id'', st3)))))"

text \<open>
  The end of \<^verbatim>\<open>connect\<close>: ``resend an inflight publish''. It runs whatever the outcome
  of the wait for CONNACK was, and its result replaces \<^verbatim>\<open>rc\<close>.
\<close>

definition connect_resend :: "config \<Rightarrow> nat \<Rightarrow> int \<Rightarrow> client \<Rightarrow> int \<times> client" where
  "connect_resend cfg connect_timer rc st =
     (if MQTTCLIENT_QOS2 cfg \<and> inflightMsgid st > 0 \<and> inflightQoS st = QOS2 \<and> pubrel st then
        (case MQTTSerialize_ack cfg PUBREL 0 (inflightMsgid st) st of
           (len, st1) \<Rightarrow>
             if len \<le> 0 then (FAILURE, st1)
             else publish_len cfg len connect_timer (inflightQoS st1) st1)
      else if (MQTTCLIENT_QOS1 cfg \<or> MQTTCLIENT_QOS2 cfg) \<and> inflightMsgid st > 0 then
        publish_len cfg (inflightLen st) connect_timer (inflightQoS st)
          (st\<lparr>sendbuf := store (sendbuf st) 0 (take (nat (MAX_MQTT_PACKET_SIZE cfg)) (pubbuf st))\<rparr>)
      else (rc, st))"

definition connect :: "config \<Rightarrow> MQTTPacket_connectData \<Rightarrow> client \<Rightarrow> int \<times> client" where
  "connect cfg options st =
     (let connect_timer = countdown_ms (command_timeout_ms st) st in
      case
        (if isconnected st then (FAILURE, st)
         else
           (case MQTTSerialize_connect cfg options
                   (st\<lparr>keepAliveInterval := options_keepAliveInterval options,
                       cleansession := options_cleansession options\<rparr>) of
              (len, st1) \<Rightarrow>
                if len \<le> 0 then (FAILURE, st1)
                else
                  (case sendPacket len connect_timer st1 of
                     (rc, st2) \<Rightarrow>
                       if rc \<noteq> SUCCESS then (rc, st2)
                       else
                         (case waitfor cfg CONNACK connect_timer
                                 (if keepAliveInterval st2 > 0
                                  then st2\<lparr>last_received := countdown (keepAliveInterval st2) st2\<rparr>
                                  else st2) of
                            (w, st3) \<Rightarrow>
                              connect_resend cfg connect_timer
                                (if w = CONNACK then
                                   (case MQTTDeserialize_connack (readbuf st3) of
                                      None \<Rightarrow> FAILURE
                                    | Some (sessionPresent, connack_rc) \<Rightarrow> uint connack_rc)
                                 else FAILURE)
                                st3)))) of
        (rc, st') \<Rightarrow> (rc, if rc = SUCCESS then st'\<lparr>isconnected := True\<rparr> else st'))"

text \<open>
  The \<^verbatim>\<open>for\<close> loop of \<^verbatim>\<open>subscribe\<close> that puts the handler into the first empty slot;
  it says whether it found one.
\<close>

fun subscribe_loop ::
    "(string option \<times> FP) list \<Rightarrow> string \<Rightarrow> FP \<Rightarrow> bool \<times> (string option \<times> FP) list" where
  "subscribe_loop [] topicFilter fp = (False, [])"
| "subscribe_loop ((f, h) # hs) topicFilter fp =
     (if f = None then (True, (Some topicFilter, fp) # hs)
      else (case subscribe_loop hs topicFilter fp of (r, hs') \<Rightarrow> (r, (f, h) # hs')))"

definition subscribe :: "config \<Rightarrow> string \<Rightarrow> int \<Rightarrow> FP \<Rightarrow> client \<Rightarrow> int \<times> client" where
  "subscribe cfg topicFilter q fp st =
     (let timer = countdown_ms (command_timeout_ms st) st in
      case
        (if \<not> isconnected st then (FAILURE, st)
         else
           (case getNext st of
              (pid, st1) \<Rightarrow>
                (case MQTTSerialize_subscribe cfg pid topicFilter q st1 of
                   (len, st2) \<Rightarrow>
                     if len \<le> 0 then (FAILURE, st2)
                     else
                       (case sendPacket len timer st2 of
                          (rc, st3) \<Rightarrow>
                            if rc \<noteq> SUCCESS then (rc, st3)
                            else
                              (case waitfor cfg SUBACK timer st3 of
                                 (w, st4) \<Rightarrow>
                                   if w = SUBACK then
                                     (let rc1 =
                                        (case MQTTDeserialize_suback (readbuf st4) of
                                           None \<Rightarrow> rc
                                         | Some (mypacketid, codes) \<Rightarrow>
                                             (case codes of [] \<Rightarrow> - 1 | c # _ \<Rightarrow> uint c))
                                      in
                                        if rc1 \<noteq> 0x80 then
                                          (case subscribe_loop (messageHandlers st4) topicFilter fp of
                                             (found, hs) \<Rightarrow>
                                               if found then (0, st4\<lparr>messageHandlers := hs\<rparr>)
                                               else (rc1, st4))
                                        else (rc1, st4))
                                   else (FAILURE, st4)))))) of
        (rc, st') \<Rightarrow> (rc, if rc \<noteq> SUCCESS then st'\<lparr>isconnected := False\<rparr> else st'))"

subsection \<open>Concrete clients\<close>

text \<open>
  A configuration with both QoS switches on and buffers of 20 bytes, and a client as the
  constructor leaves it (no handlers, not connected, nothing in flight, no incoming QoS 2
  id), with keepalive off, a clean-session flag of false and a silent transport. The
  inputs of the theorems below are variations of it.
\<close>

definition cfg20 :: config where
  "cfg20 = \<lparr>MAX_MQTT_PACKET_SIZE = 20, MQTTCLIENT_QOS1 = True, MQTTCLIENT_QOS2 = True\<rparr>"

definition client0 :: client where
  "client0 = \<lparr>command_timeout_ms = 30000,
     sendbuf = [0,0,0,0,0,0,0,0,0,0,0,0,0,0,0,0,0,0,0,0],
     readbuf = [0,0,0,0,0,0,0,0,0,0,0,0,0,0,0,0,0,0,0,0],
     last_sent = 0, last_received = 0, keepAliveInterval = 0, ping_outstanding = False,
     cleansession = False, packetid = 1,
     messageHandlers = [(None, None), (None, None), (None, None), (None, None), (None, None)],
     defaultMessageHandler = None, isconnected = False,
     pubbuf = [0,0,0,0,0,0,0,0,0,0,0,0,0,0,0,0,0,0,0,0],
     inflightLen = 0, inflightMsgid = 0, inflightQoS = 0, pubrel = False,
     incomingQoS2messages = [0,0,0,0,0,0,0,0,0,0], net_rx = [], net_tx = [], net_sent = [],
     clock_ms = 0, handler_calls = []\<rparr>"

definition handler0 :: nat where "handler0 = 0"

definition opts :: MQTTPacket_connectData where
  "opts = \<lparr>MQTTVersion = 4, clientID = ''c'', options_keepAliveInterval = 0, options_cleansession = False,
           will = None, username = None, password = None\<rparr>"

text \<open>A transport on which nothing arrives, and one whose first read fails.\<close>

definition quiet :: client where
  "quiet = client0"

definition broken :: client where
  "broken = client0\<lparr>net_rx := [NetError 0 0]\<rparr>"

text \<open>A read error after 5 ms, then a CONNACK.\<close>

definition error_then_connack :: client where
  "error_then_connack = client0\<lparr>net_rx := [NetError 0 5, Data [0x20, 0x02, 0x00, 0x00] 5]\<rparr>"

text \<open>
  A QoS 1 publish of payload \<^verbatim>\<open>y\<close> to topic \<^verbatim>\<open>x\<close> in a session that is not clean, on
  a transport that never answers; then the broker's answers to the reconnect: a CONNACK
  and the PUBACK for packet id 1.
\<close>

definition after_failed_publish :: client where
  "after_failed_publish =
     snd (snd (publish cfg20 ''x'' [0x79] 0 QOS1 False (client0\<lparr>isconnected := True\<rparr>)))"

definition reconnect_script :: "rx_event list" where
  "reconnect_script = [Data [0x20, 0x02, 0x00, 0x00] 5, Data [0x40, 0x02, 0x00, 0x01] 5]"

text \<open>A QoS 2 publish with id 7 is in flight, and its PUBREC arrives.\<close>

definition pubrec_for_inflight :: client where
  "pubrec_for_inflight =
     client0\<lparr>isconnected := True, inflightMsgid := 7, inflightQoS := QOS2, inflightLen := 8,
             net_rx := [Data [0x50, 0x02, 0x00, 0x07] 5]\<rparr>"

text \<open>A connected client whose SUBACK (for packet id 1) carries the return code 0x80.\<close>

definition suback_rejects :: client where
  "suback_rejects = client0\<lparr>isconnected := True, net_rx := [Data [0x90, 0x03, 0x00, 0x01, 0x80] 5]\<rparr>"

text \<open>A PUBLISH header with Remaining Length 100, for buffers of 20 bytes.\<close>

definition oversized_publish :: client where
  "oversized_publish = client0\<lparr>isconnected := True, net_rx := [Data [0x30, 0x64] 5]\<rparr>"

text \<open>A PINGRESP header followed by four length bytes with the continuation bit, then 0x01.\<close>

definition five_length_bytes :: client where
  "five_length_bytes = client0\<lparr>net_rx := [Data [0xD0, 0x80, 0x80, 0x80, 0x80, 0x01] 5]\<rparr>"




text \<open>The client of the failed publish, with the broker's answers to its reconnect.\<close>

definition reconnecting :: client where
  "reconnecting = after_failed_publish\<lparr>net_rx := reconnect_script\<rparr>"



text \<open>The definitions to unfold when a call is evaluated on a concrete client.\<close>

lemmas eval =
  cfg20_def client0_def opts_def
  code_defs type_defs qos_defs
  expired_def left_ms_def countdown_ms_def countdown_def ipstack_read_def ipstack_write_def
  sendPacket_loop.simps sendPacket_def decodePacket_loop.simps decodePacket_def
  MQTTPacket_encode.simps header_type_def readPacket_def
  MQTTPACKET_BUFFER_TOO_SHORT_def readInt_def writeInt_def writeCString_def byte_to_char_def
  packet_body_def serialize_def to_sendbuf_def ack_bytes_def MQTTSerialize_ack_def
  MQTTDeserialize_ack_def MQTTSerialize_pingreq_def publish_bytes_def MQTTSerialize_publish_def
  MQTTDeserialize_publish_def connect_flags_def connect_bytes_def MQTTSerialize_connect_def
  MQTTDeserialize_connack_def subscribe_bytes_def MQTTSerialize_subscribe_def
  MQTTDeserialize_suback_def getNext_def isQoS2msgidFree_def useQoS2msgid_def freeQoS2msgid_def
  MQTTPacket_equals_def call_handler_def deliverMessage_def keepalive_def cycle_PUBLISH_deliver_def
  cycle_PUBLISH_ack_def cycle_PUBLISH_def
  cycle_PUBREC_PUBREL_def cycle_switch_def cycle_def waitfor_loop.simps waitfor_def
  yield_loop.simps yield_def publish_wait_def publish_len_wait_def publish_len_def publish_def connect_resend_def
  connect_def subscribe_def isTopicMatched_def topic_loop.simps skip_level.simps deref_def NUL_def
  Let_def

lemma after_failed_publish_eq:
  "after_failed_publish =
     client0\<lparr>sendbuf := [0x32, 6, 0, 1, 0x78, 0, 1, 0x79, 0,0,0,0,0,0,0,0,0,0,0,0],
             pubbuf := [0x32, 6, 0, 1, 0x78, 0, 1, 0x79, 0,0,0,0,0,0,0,0,0,0,0,0],
             packetid := 2, inflightLen := 8, inflightMsgid := 1, inflightQoS := 1,
             net_sent := [0x32, 6, 0, 1, 0x78, 0, 1, 0x79], clock_ms := 30000\<rparr>"
  by (simp add: after_failed_publish_def eval)

section \<open>What the operations change\<close>

subsection \<open>Reads and writes\<close>

text \<open>What a read leaves alone: everything but the receive buffer, the inbound script, the clock and last_received.\<close>

definition read_frame :: "client \<Rightarrow> client \<Rightarrow> bool" where
  "read_frame st st' =
     (command_timeout_ms st' = command_timeout_ms st \<and> sendbuf st' = sendbuf st
      \<and> length (readbuf st') = length (readbuf st)
      \<and> last_sent st' = last_sent st \<and> keepAliveInterval st' = keepAliveInterval st
      \<and> ping_outstanding st' = ping_outstanding st \<and> cleansession st' = cleansession st
      \<and> packetid st' = packetid st \<and> messageHandlers st' = messageHandlers st
      \<and> defaultMessageHandler st' = defaultMessageHandler st \<and> isconnected st' = isconnected st
      \<and> pubbuf st' = pubbuf st \<and> inflightLen st' = inflightLen st
      \<and> inflightMsgid st' = inflightMsgid st \<and> inflightQoS st' = inflightQoS st
      \<and> pubrel st' = pubrel st \<and> incomingQoS2messages st' = incomingQoS2messages st
      \<and> net_tx st' = net_tx st \<and> net_sent st' = net_sent st
      \<and> handler_calls st' = handler_calls st)"

lemma length_store [simp]: "length (store buf off bs) = length buf"
  by (induction bs arbitrary: buf off) auto

lemma ipstack_read_frame:
  "ipstack_read len timeout st = (rc, d, st') \<Longrightarrow> read_frame st st'"
  by (auto simp: ipstack_read_def read_frame_def split: list.splits rx_event.splits if_splits)

lemma read_frame_refl: "read_frame st st"
  by (simp add: read_frame_def)

lemma read_frame_trans: "read_frame a b \<Longrightarrow> read_frame b c \<Longrightarrow> read_frame a c"
  by (simp add: read_frame_def)

lemma read_frame_upd [simp]:
  "read_frame st (st'\<lparr>readbuf := store (readbuf st') off bs\<rparr>) = read_frame st st'"
  "read_frame (st\<lparr>readbuf := store (readbuf st) off bs\<rparr>) st' = read_frame st st'"
  "read_frame st (st'\<lparr>last_received := t\<rparr>) = read_frame st st'"
  by (simp_all add: read_frame_def)

lemma decodePacket_loop_frame:
  "decodePacket_loop timeout len multiplier val st = (r, st') \<Longrightarrow> read_frame st st'"
proof (induction timeout len multiplier val st rule: decodePacket_loop.induct)
  case (1 timeout len multiplier val st)
  show ?case
  proof (cases "len + 1 > 4")
    case True
    with "1.prems" show ?thesis
      by (simp add: decodePacket_loop.simps [of timeout len multiplier val st] read_frame_refl)
  next
    case False
    obtain rc d st1 where r: "ipstack_read 1 timeout st = (rc, d, st1)"
      by (cases "ipstack_read 1 timeout st") auto
    have l1: "read_frame st st1" using r by (rule ipstack_read_frame)
    show ?thesis
    proof (cases "rc = 1 \<and> d \<noteq> [] \<and> hd d AND 128 \<noteq> 0")
      case True
      then obtain c cs where d: "d = c # cs" by (cases d) auto
      from True d False r "1.prems"
      have call: "decodePacket_loop timeout (len + 1) (multiplier * 128)
              (val + uint (c AND 127) * multiplier) st1 = (r, st')"
        by (simp add: decodePacket_loop.simps [of timeout len multiplier val st])
      from True d have c1: "\<not> rc \<noteq> 1" and c2: "c AND 128 \<noteq> 0" by auto
      have "read_frame st1 st'"
        by (rule "1.IH" [OF False r [symmetric] refl c1 d c2 call])
      with l1 show ?thesis by (rule read_frame_trans)
    next
      case F2: False
      have "st' = st1"
        using F2 False r "1.prems"
        by (simp add: decodePacket_loop.simps [of timeout len multiplier val st]
                 split: list.splits if_splits)
      with l1 show ?thesis by simp
    qed
  qed
qed

lemma decodePacket_frame: "decodePacket timeout st = (r, st') \<Longrightarrow> read_frame st st'"
  unfolding decodePacket_def by (rule decodePacket_loop_frame)

lemma readPacket_frame:
  "readPacket cfg timer st = (rc, st') \<Longrightarrow> read_frame st st'"
  unfolding readPacket_def Let_def
  apply (simp split: prod.splits if_splits)
  apply (auto dest!: ipstack_read_frame decodePacket_frame intro: read_frame_trans)
    apply (blast intro: read_frame_trans)+
  done

text \<open>What a write leaves alone: everything but the outbound script, the bytes sent, the clock and last_sent.\<close>

definition write_frame :: "client \<Rightarrow> client \<Rightarrow> bool" where
  "write_frame st st' =
     (command_timeout_ms st' = command_timeout_ms st \<and> sendbuf st' = sendbuf st
      \<and> readbuf st' = readbuf st
      \<and> last_received st' = last_received st \<and> keepAliveInterval st' = keepAliveInterval st
      \<and> ping_outstanding st' = ping_outstanding st \<and> cleansession st' = cleansession st
      \<and> packetid st' = packetid st \<and> messageHandlers st' = messageHandlers st
      \<and> defaultMessageHandler st' = defaultMessageHandler st \<and> isconnected st' = isconnected st
      \<and> pubbuf st' = pubbuf st \<and> inflightLen st' = inflightLen st
      \<and> inflightMsgid st' = inflightMsgid st \<and> inflightQoS st' = inflightQoS st
      \<and> pubrel st' = pubrel st \<and> incomingQoS2messages st' = incomingQoS2messages st
      \<and> net_rx st' = net_rx st \<and> handler_calls st' = handler_calls st)"

lemma write_frame_refl: "write_frame st st"
  by (simp add: write_frame_def)

lemma write_frame_trans: "write_frame a b \<Longrightarrow> write_frame b c \<Longrightarrow> write_frame a c"
  by (simp add: write_frame_def)

lemma write_frame_upd [simp]:
  "write_frame st (st'\<lparr>last_sent := t\<rparr>) = write_frame st st'"
  by (simp add: write_frame_def)

lemma ipstack_write_frame:
  "ipstack_write bytes len timeout st = (rc, st') \<Longrightarrow> write_frame st st'"
  by (auto simp: ipstack_write_def write_frame_def split: list.splits tx_event.splits)

lemma ipstack_write_sent:
  "ipstack_write (take (nat len) bs) len timeout st = (rc, st') \<Longrightarrow> 0 \<le> rc \<Longrightarrow>
   net_sent st' = net_sent st @ take (nat rc) bs \<and> rc \<le> max len 0"
  by (auto simp: ipstack_write_def min_def split: list.splits tx_event.splits if_splits)

lemma ipstack_write_error:
  "ipstack_write (take (nat len) bs) len timeout st = (rc, st') \<Longrightarrow> rc < 0 \<Longrightarrow>
   net_sent st' = net_sent st"
  by (auto simp: ipstack_write_def split: list.splits tx_event.splits if_splits)

text \<open>The loop of sendPacket sends the bytes of the send buffer between the two values of \<open>sent\<close>.\<close>

lemma sendPacket_loop_effect:
  "sendPacket_loop len timer sent st = (sent', st') \<Longrightarrow> 0 \<le> sent \<Longrightarrow>
   write_frame st st' \<and> sent \<le> sent'
   \<and> net_sent st' = net_sent st @ take (nat (sent' - sent)) (drop (nat sent) (sendbuf st))"
proof (induction len timer sent st rule: sendPacket_loop.induct)
  case (1 len timer sent st)
  show ?case
  proof (cases "sent < len \<and> \<not> expired timer st")
    case True
    obtain rc st1 where w: "ipstack_write (take (nat (len - sent)) (drop (nat sent) (sendbuf st)))
                (len - sent) (left_ms timer st) st = (rc, st1)"
      by (cases "ipstack_write (take (nat (len - sent)) (drop (nat sent) (sendbuf st)))
                (len - sent) (left_ms timer st) st") auto
    have f1: "write_frame st st1" using w by (rule ipstack_write_frame)
    show ?thesis
    proof (cases "rc < 0")
      case True
      with \<open>sent < len \<and> \<not> expired timer st\<close> w "1.prems" f1 ipstack_write_error [OF w]
      show ?thesis
        by (simp add: sendPacket_loop.simps [of len timer sent st])
    next
      case False
      with \<open>sent < len \<and> \<not> expired timer st\<close> w "1.prems"
      have call: "sendPacket_loop len timer (sent + rc) st1 = (sent', st')"
        by (simp add: sendPacket_loop.simps [of len timer sent st])
      from False "1.prems" have nn: "0 \<le> sent + rc" by simp
      note ih = "1.IH" [OF \<open>sent < len \<and> \<not> expired timer st\<close> w [symmetric] False call nn]
      from w False have s1: "net_sent st1 = net_sent st @ take (nat rc) (drop (nat sent) (sendbuf st))"
        using ipstack_write_sent [of "len - sent" "drop (nat sent) (sendbuf st)" "left_ms timer st" st rc st1]
        by simp
      have sb: "sendbuf st1 = sendbuf st" using f1 by (simp add: write_frame_def)
      have "take (nat rc) (drop (nat sent) (sendbuf st))
              @ take (nat (sent' - (sent + rc))) (drop (nat (sent + rc)) (sendbuf st))
            = take (nat (sent' - sent)) (drop (nat sent) (sendbuf st))"
      proof -
        have a: "nat (sent + rc) = nat sent + nat rc" using False "1.prems" by (simp add: nat_add_distrib)
        have b: "nat (sent' - sent) = nat rc + nat (sent' - (sent + rc))"
          using False "1.prems" ih by (simp add: nat_add_distrib [symmetric])
        show ?thesis
          unfolding a b take_add by (simp add: add.commute)
      qed
      with ih s1 sb f1 False show ?thesis
        by (auto intro: write_frame_trans)
    qed
  next
    case False
    with "1.prems" show ?thesis
      by (simp add: sendPacket_loop.simps [of len timer sent st] write_frame_refl)
  qed
qed

lemma sendPacket_frame: "sendPacket len timer st = (rc, st') \<Longrightarrow> write_frame st st'"
  by (auto simp: sendPacket_def split: prod.splits if_splits dest!: sendPacket_loop_effect)

lemma sendPacket_rc: "sendPacket len timer st = (rc, st') \<Longrightarrow> rc = SUCCESS \<or> rc = FAILURE"
  by (auto simp: sendPacket_def split: prod.splits if_splits)

lemma sendPacket_sent:
  "sendPacket len timer st = (SUCCESS, st') \<Longrightarrow>
   net_sent st' = net_sent st @ take (nat len) (sendbuf st)"
  by (auto simp: sendPacket_def code_defs split: prod.splits if_splits dest!: sendPacket_loop_effect)

lemma sendPacket_grows:
  "sendPacket len timer st = (rc, st') \<Longrightarrow> \<exists>xs. net_sent st' = net_sent st @ xs"
  by (auto simp: sendPacket_def split: prod.splits if_splits dest!: sendPacket_loop_effect)

subsection \<open>Cycles\<close>

text \<open>
  What no cycle changes: the session data (timeouts, handlers, connection flag, the
  in-flight publish) and the size of the send buffer; and the bytes sent only grow.
\<close>

definition kept :: "client \<Rightarrow> client \<Rightarrow> bool" where
  "kept st st' =
     (command_timeout_ms st' = command_timeout_ms st \<and> keepAliveInterval st' = keepAliveInterval st
      \<and> cleansession st' = cleansession st \<and> packetid st' = packetid st
      \<and> messageHandlers st' = messageHandlers st
      \<and> defaultMessageHandler st' = defaultMessageHandler st \<and> isconnected st' = isconnected st
      \<and> pubbuf st' = pubbuf st \<and> inflightLen st' = inflightLen st
      \<and> inflightMsgid st' = inflightMsgid st \<and> inflightQoS st' = inflightQoS st
      \<and> pubrel st' = pubrel st \<and> length (sendbuf st') = length (sendbuf st)
      \<and> (\<exists>xs. net_sent st' = net_sent st @ xs))"

lemma kept_refl: "kept st st"
  by (simp add: kept_def)

lemma kept_trans: "kept a b \<Longrightarrow> kept b c \<Longrightarrow> kept a c"
  by (auto simp: kept_def)

lemma kept_upd [simp]:
  "kept st (st'\<lparr>sendbuf := store (sendbuf st') off bs\<rparr>) = kept st st'"
  "kept st (st'\<lparr>readbuf := rb\<rparr>) = kept st st'"
  "kept st (st'\<lparr>last_sent := t\<rparr>) = kept st st'"
  "kept st (st'\<lparr>last_received := t\<rparr>) = kept st st'"
  "kept st (st'\<lparr>ping_outstanding := b\<rparr>) = kept st st'"
  "kept st (st'\<lparr>incomingQoS2messages := q\<rparr>) = kept st st'"
  "kept st (st'\<lparr>handler_calls := c\<rparr>) = kept st st'"
  "kept (st\<lparr>sendbuf := store (sendbuf st) off bs\<rparr>) st' = kept st st'"
  "kept (st\<lparr>readbuf := rb\<rparr>) st' = kept st st'"
  "kept (st\<lparr>last_sent := t\<rparr>) st' = kept st st'"
  "kept (st\<lparr>last_received := t\<rparr>) st' = kept st st'"
  "kept (st\<lparr>ping_outstanding := b\<rparr>) st' = kept st st'"
  "kept (st\<lparr>incomingQoS2messages := q\<rparr>) st' = kept st st'"
  "kept (st\<lparr>handler_calls := c\<rparr>) st' = kept st st'"
  by (simp_all add: kept_def)

lemma read_frame_kept: "read_frame st st' \<Longrightarrow> kept st st'"
  by (simp add: read_frame_def kept_def)

lemma readPacket_kept: "readPacket cfg timer st = (rc, st') \<Longrightarrow> kept st st'"
  by (rule read_frame_kept) (rule readPacket_frame)

lemma sendPacket_kept: "sendPacket len timer st = (rc, st') \<Longrightarrow> kept st st'"
  using sendPacket_frame [of len timer st rc st'] sendPacket_grows [of len timer st rc st']
  by (simp add: write_frame_def kept_def)

lemma to_sendbuf_eq:
  "to_sendbuf cfg bytes st = (len, st') \<Longrightarrow>
   st' = st \<and> len \<le> 0 \<or>
   st' = st\<lparr>sendbuf := store (sendbuf st) 0 bytes\<rparr> \<and> len = int (length bytes)
     \<and> len \<le> MAX_MQTT_PACKET_SIZE cfg"
  by (auto simp: to_sendbuf_def serialize_def MQTTPACKET_BUFFER_TOO_SHORT_def split: if_splits)

lemma to_sendbuf_kept: "to_sendbuf cfg bytes st = (len, st') \<Longrightarrow> kept st st'"
  by (auto dest!: to_sendbuf_eq simp: kept_refl)

definition delivered :: "client \<Rightarrow> client \<Rightarrow> bool" where
  "delivered st st' =
     (kept st st' \<and> net_sent st' = net_sent st \<and> sendbuf st' = sendbuf st
      \<and> readbuf st' = readbuf st \<and> net_tx st' = net_tx st \<and> last_sent st' = last_sent st
      \<and> last_received st' = last_received st \<and> ping_outstanding st' = ping_outstanding st)"

lemma delivered_refl: "delivered st st"
  by (simp add: delivered_def kept_refl)

lemma delivered_trans: "delivered a b \<Longrightarrow> delivered b c \<Longrightarrow> delivered a c"
  by (auto simp: delivered_def intro: kept_trans)

lemma delivered_upd [simp]:
  "delivered st (st'\<lparr>handler_calls := c\<rparr>) = delivered st st'"
  "delivered st (st'\<lparr>incomingQoS2messages := q\<rparr>) = delivered st st'"
  "delivered (st\<lparr>handler_calls := c\<rparr>) st' = delivered st st'"
  "delivered (st\<lparr>incomingQoS2messages := q\<rparr>) st' = delivered st st'"
  by (simp_all add: delivered_def)

lemma deliverMessage_loop_delivered:
  "deliverMessage_loop hs topic msg rc st = (rc', st') \<Longrightarrow> delivered st st'"
  by (induction hs topic msg rc st rule: deliverMessage_loop.induct)
     (auto simp: call_handler_def delivered_refl split: option.splits if_splits)

lemma deliverMessage_delivered: "delivered st (snd (deliverMessage topic msg st))"
proof -
  obtain rc st1 where l: "deliverMessage_loop (messageHandlers st) topic msg FAILURE st = (rc, st1)"
    by (cases "deliverMessage_loop (messageHandlers st) topic msg FAILURE st") auto
  have d: "delivered st st1" using l by (rule deliverMessage_loop_delivered)
  have "snd (deliverMessage topic msg st) = st1
        \<or> (\<exists>c. snd (deliverMessage topic msg st) = st1\<lparr>handler_calls := c\<rparr>)"
    using l by (auto simp: deliverMessage_def call_handler_def split: option.splits)
  with d show ?thesis by auto
qed

lemma useQoS2msgid_eq:
  "useQoS2msgid i st = (r, st') \<Longrightarrow> \<exists>q. st' = st\<lparr>incomingQoS2messages := q\<rparr>"
  by (auto simp: useQoS2msgid_def split: prod.splits)

lemma keepalive_kept: "kept st (snd (keepalive cfg st))"
proof -
  obtain len st1 where s: "MQTTSerialize_pingreq cfg st = (len, st1)"
    by (cases "MQTTSerialize_pingreq cfg st") auto
  have k1: "kept st st1" using s unfolding MQTTSerialize_pingreq_def by (rule to_sendbuf_kept)
  obtain rc2 st2 where p: "sendPacket len (countdown_ms 1000 st1) st1 = (rc2, st2)"
    by (cases "sendPacket len (countdown_ms 1000 st1) st1") auto
  have k2: "kept st1 st2" using p by (rule sendPacket_kept)
  have "snd (keepalive cfg st) = st \<or> snd (keepalive cfg st) = st1
        \<or> snd (keepalive cfg st) = st2 \<or> snd (keepalive cfg st) = st2\<lparr>ping_outstanding := True\<rparr>"
    using s p unfolding keepalive_def by (auto split: if_splits)
  with k1 kept_trans [OF k1 k2] show ?thesis by (auto simp: kept_refl)
qed

lemma keepalive_silent:
  "handler_calls (snd (keepalive cfg st)) = handler_calls st
   \<and> incomingQoS2messages (snd (keepalive cfg st)) = incomingQoS2messages st
   \<and> readbuf (snd (keepalive cfg st)) = readbuf st"
  unfolding keepalive_def MQTTSerialize_pingreq_def
  by (auto split: prod.splits if_splits
           dest!: to_sendbuf_eq sendPacket_frame simp: write_frame_def)

lemma cycle_PUBLISH_deliver_delivered: "delivered st (cycle_PUBLISH_deliver cfg topic msg st)"
proof -
  obtain used st2 where u: "useQoS2msgid (msgid msg) st = (used, st2)"
    by (cases "useQoS2msgid (msgid msg) st") auto
  from useQoS2msgid_eq [OF u] obtain q where st2: "st2 = st\<lparr>incomingQoS2messages := q\<rparr>" by blast
  have d2: "delivered st st2" using st2 by (simp add: delivered_refl)
  have d3: "delivered st (snd (deliverMessage topic msg st2))"
    using deliverMessage_delivered [of st2 topic msg] st2 by simp
  show ?thesis
    unfolding cycle_PUBLISH_deliver_def
    using u d2 d3 deliverMessage_delivered [of st topic msg]
    by (simp add: delivered_refl)
qed

lemma cycle_PUBLISH_deliver_kept: "kept st (cycle_PUBLISH_deliver cfg topic msg st)"
  using cycle_PUBLISH_deliver_delivered [of st cfg topic msg] by (simp add: delivered_def)

lemma MQTTSerialize_ack_kept:
  "MQTTSerialize_ack cfg t d i st = (len, st') \<Longrightarrow> kept st st'"
  unfolding MQTTSerialize_ack_def by (rule to_sendbuf_kept)

lemma cycle_PUBLISH_ack_kept:
  assumes "cycle_PUBLISH_ack cfg timer msg st = (rc, ex, st')"
  shows "kept st st'"
proof -
  obtain len st1 where s: "(if qos msg = QOS1 then MQTTSerialize_ack cfg PUBACK 0 (msgid msg) st
                  else if qos msg = QOS2 then MQTTSerialize_ack cfg PUBREC 0 (msgid msg) st
                  else (0, st)) = (len, st1)"
    by (cases "(if qos msg = QOS1 then MQTTSerialize_ack cfg PUBACK 0 (msgid msg) st
                  else if qos msg = QOS2 then MQTTSerialize_ack cfg PUBREC 0 (msgid msg) st
                  else (0, st))") auto
  have k1: "kept st st1"
    using s by (auto split: if_splits dest: MQTTSerialize_ack_kept simp: kept_refl)
  obtain rc2 st2 where p: "(if len \<le> 0 then (FAILURE, st1) else sendPacket len timer st1) = (rc2, st2)"
    by (cases "(if len \<le> 0 then (FAILURE, st1) else sendPacket len timer st1)") auto
  have k2: "kept st1 st2"
    using p by (auto split: if_splits dest: sendPacket_kept simp: kept_refl)
  have "st' = st \<or> st' = st\<lparr>ping_outstanding := False\<rparr> \<or> st' = st2"
    using assms s p unfolding cycle_PUBLISH_ack_def by (auto split: if_splits)
  with k1 kept_trans [OF k1 k2] show ?thesis by (auto simp: kept_refl)
qed

lemma cycle_PUBLISH_kept:
  "cycle_PUBLISH cfg timer st = (rc, ex, st') \<Longrightarrow> kept st st'"
  unfolding cycle_PUBLISH_def
  by (auto split: option.splits simp: kept_refl
           dest!: cycle_PUBLISH_ack_kept elim: kept_trans [OF cycle_PUBLISH_deliver_kept])

lemma cycle_PUBREC_PUBREL_kept:
  assumes "cycle_PUBREC_PUBREL cfg timer packet_type st = (rc, ex, st')"
  shows "kept st st'"
proof (cases "MQTTDeserialize_ack (readbuf st)")
  case None
  with assms show ?thesis by (simp add: cycle_PUBREC_PUBREL_def kept_refl)
next
  case (Some a)
  obtain t d i where a: "a = (t, d, i)" by (cases a) auto
  obtain len st1 where s:
    "MQTTSerialize_ack cfg (if packet_type = PUBREC then PUBREL else PUBCOMP) 0 i st = (len, st1)"
    by (cases "MQTTSerialize_ack cfg (if packet_type = PUBREC then PUBREL else PUBCOMP) 0 i st") auto
  have k1: "kept st st1" using s by (rule MQTTSerialize_ack_kept)
  obtain rc2 st2 where p: "sendPacket len timer st1 = (rc2, st2)"
    by (cases "sendPacket len timer st1") auto
  have k2: "kept st1 st2" using p by (rule sendPacket_kept)
  have "st' = st1 \<or> st' = st2 \<or> st' = freeQoS2msgid i st2"
    using assms Some a s p unfolding cycle_PUBREC_PUBREL_def by (auto split: if_splits)
  with k1 kept_trans [OF k1 k2] show ?thesis by (auto simp: freeQoS2msgid_def)
qed

lemma cycle_switch_kept:
  "cycle_switch cfg timer packet_type st = (rc, ex, st') \<Longrightarrow> kept st st'"
  unfolding cycle_switch_def
  by (auto split: if_splits simp: kept_refl dest: cycle_PUBLISH_kept cycle_PUBREC_PUBREL_kept)

lemma cycle_kept:
  assumes "cycle cfg timer st = (rc, st')"
  shows "kept st st'"
proof -
  obtain pt st1 where r: "readPacket cfg timer st = (pt, st1)"
    by (cases "readPacket cfg timer st") auto
  obtain rc2 ex st2 where sw: "cycle_switch cfg timer pt st1 = (rc2, ex, st2)"
    by (cases "cycle_switch cfg timer pt st1") auto
  have k1: "kept st st1" using r by (rule readPacket_kept)
  have k2: "kept st1 st2" using sw by (rule cycle_switch_kept)
  have "st' = (if ex then st2 else snd (keepalive cfg st2))"
    using assms r sw by (simp add: cycle_def)
  then have "kept st2 st'"
    by (simp add: kept_refl keepalive_kept)
  with k1 k2 show ?thesis by (blast intro: kept_trans)
qed

lemma waitfor_loop_kept:
  "waitfor_loop cfg packet_type timer rc st = (rc', st') \<Longrightarrow> kept st st'"
proof (induction cfg packet_type timer rc st rule: waitfor_loop.induct)
  case (1 cfg packet_type timer rc st)
  show ?case
  proof (cases "expired timer st")
    case True
    with "1.prems" show ?thesis
      by (simp add: waitfor_loop.simps [of cfg packet_type timer rc st] kept_refl)
  next
    case False
    obtain r1 st1 where c: "cycle cfg timer st = (r1, st1)"
      by (cases "cycle cfg timer st") auto
    have k1: "kept st st1" using c by (rule cycle_kept)
    show ?thesis
    proof (cases "r1 \<noteq> packet_type")
      case True
      with False c "1.prems" have call: "waitfor_loop cfg packet_type timer r1 st1 = (rc', st')"
        by (simp add: waitfor_loop.simps [of cfg packet_type timer rc st])
      have "kept st1 st'" by (rule "1.IH" [OF False c [symmetric] True call])
      with k1 show ?thesis by (rule kept_trans)
    next
      case F: False
      with False c "1.prems" have "st' = st1"
        by (simp add: waitfor_loop.simps [of cfg packet_type timer rc st])
      with k1 show ?thesis by simp
    qed
  qed
qed

lemma waitfor_kept: "waitfor cfg packet_type timer st = (rc, st') \<Longrightarrow> kept st st'"
  unfolding waitfor_def by (rule waitfor_loop_kept)

lemma cycle_of_failed_read:
  assumes "readPacket cfg timer st = (pt, st1)" and "pt = FAILURE \<or> pt = BUFFER_OVERFLOW"
  shows "cycle cfg timer st = (pt, snd (keepalive cfg st1))"
  using assms by (auto simp: cycle_def cycle_switch_def code_defs)

lemma length_encode_pos: "0 < length (MQTTPacket_encode n)"
  by (subst MQTTPacket_encode.simps) simp

text \<open>\<^verbatim>\<open>waitfor\<close> ends with the expected packet type or with the timer expired.\<close>

lemma waitfor_loop_returns:
  "waitfor_loop cfg packet_type timer rc st = (rc', st') \<Longrightarrow>
   rc' = packet_type \<or> expired timer st'"
proof (induction cfg packet_type timer rc st rule: waitfor_loop.induct)
  case (1 cfg packet_type timer rc st)
  show ?case
  proof (cases "expired timer st")
    case True
    with "1.prems" show ?thesis
      by (simp add: waitfor_loop.simps [of cfg packet_type timer rc st])
  next
    case False
    obtain r1 st1 where c: "cycle cfg timer st = (r1, st1)"
      by (cases "cycle cfg timer st") auto
    show ?thesis
    proof (cases "r1 \<noteq> packet_type")
      case True
      with False c "1.prems" have call: "waitfor_loop cfg packet_type timer r1 st1 = (rc', st')"
        by (simp add: waitfor_loop.simps [of cfg packet_type timer rc st])
      show ?thesis by (rule "1.IH" [OF False c [symmetric] True call])
    next
      case F: False
      with False c "1.prems" show ?thesis
        by (simp add: waitfor_loop.simps [of cfg packet_type timer rc st])
    qed
  qed
qed

lemma waitfor_returns:
  "waitfor cfg packet_type timer st = (rc, st') \<Longrightarrow> rc = packet_type \<or> expired timer st'"
  unfolding waitfor_def by (rule waitfor_loop_returns)

subsection \<open>Incoming QoS 2 publishes\<close>




lemma store_take:
  "off + length bs \<le> length buf \<Longrightarrow> take (off + length bs) (store buf off bs) = take off buf @ bs"
proof (induction bs arbitrary: buf off)
  case Nil
  then show ?case by simp
next
  case (Cons b bs)
  from Cons.prems have "Suc off + length bs \<le> length (buf[off := b])" by simp
  from Cons.IH [OF this] Cons.prems show ?case
    by (simp add: take_Suc_conv_app_nth)
qed

lemma store_take0: "length bs \<le> length buf \<Longrightarrow> take (length bs) (store buf 0 bs) = bs"
  using store_take [of 0 bs buf] by simp


subsection \<open>Publishing\<close>

text \<open>What publish and connect leave of the outbound side: the stored publish, and the bytes sent so far.\<close>

definition grown :: "client \<Rightarrow> client \<Rightarrow> bool" where
  "grown st st' = (pubbuf st' = pubbuf st \<and> (\<exists>xs. net_sent st' = net_sent st @ xs))"

lemma grown_refl: "grown st st"
  by (simp add: grown_def)

lemma grown_trans: "grown a b \<Longrightarrow> grown b c \<Longrightarrow> grown a c"
  by (auto simp: grown_def)

lemma kept_grown: "kept st st' \<Longrightarrow> grown st st'"
  by (simp add: kept_def grown_def)

lemma grown_upd [simp]:
  "grown st (st'\<lparr>isconnected := b\<rparr>) = grown st st'"
  "grown st (st'\<lparr>inflightMsgid := i\<rparr>) = grown st st'"
  by (simp_all add: grown_def)

lemma publish_wait_grown:
  assumes "publish_wait cfg acktype timer rc st = (rc', st')"
  shows "grown st st'"
proof -
  obtain w st1 where wt: "waitfor cfg acktype timer st = (w, st1)"
    by (cases "waitfor cfg acktype timer st") auto
  have g: "grown st st1" using waitfor_kept [OF wt] by (rule kept_grown)
  show ?thesis
    using assms g unfolding publish_wait_def wt
    by (simp split: if_splits option.splits prod.splits) auto
qed

lemma publish_len_wait_grown:
  "publish_len_wait cfg timer q rc st = (rc', st') \<Longrightarrow> grown st st'"
  unfolding publish_len_wait_def
  by (auto split: if_splits dest: publish_wait_grown simp: grown_refl)

lemma publish_len_sent:
  assumes "publish_len cfg len timer q st = (SUCCESS, st')"
  shows "pubbuf st' = pubbuf st
         \<and> (\<exists>post. net_sent st' = net_sent st @ take (nat len) (sendbuf st) @ post)"
proof -
  obtain rc st1 where sp: "sendPacket len timer st = (rc, st1)"
    by (cases "sendPacket len timer st") auto
  have ok: "rc = SUCCESS"
    using assms sp by (cases "rc = SUCCESS") (simp_all add: publish_len_def)
  note s1 = sendPacket_sent [OF sp [unfolded ok]]
  have p1: "pubbuf st1 = pubbuf st" using sendPacket_kept [OF sp] by (simp add: kept_def)
  obtain rc2 st2 where w: "publish_len_wait cfg timer q rc st1 = (rc2, st2)"
    by (cases "publish_len_wait cfg timer q rc st1") auto
  have g2: "grown st1 st2" using w by (rule publish_len_wait_grown)
  have "grown st1 st'"
    using assms g2 ok unfolding publish_len_def sp
    by (simp add: w [unfolded ok] split: if_splits)
  with s1 p1 show ?thesis by (auto simp: grown_def)
qed

lemma take_store_prefix:
  assumes "n \<le> length bs" and "length bs \<le> length buf"
  shows "take n (store buf 0 bs) = take n bs"
proof -
  have "take n (store buf 0 bs) = take n (take (length bs) (store buf 0 bs))"
    using assms(1) by (simp add: min_def)
  also have "\<dots> = take n bs" using assms(2) by (simp add: store_take0)
  finally show ?thesis .
qed

text \<open>A packet type returned by cycle or waitfor is the type of the packet in the receive buffer.\<close>

lemma readPacket_type:
  "readPacket cfg timer st = (pt, st') \<Longrightarrow>
   pt = FAILURE \<or> pt = BUFFER_OVERFLOW \<or> header_type (readbuf st' ! 0) = pt"
  unfolding readPacket_def Let_def
  by (simp split: prod.splits if_splits) auto

lemma to_sendbuf_readbuf: "to_sendbuf cfg bytes st = (len, st') \<Longrightarrow> readbuf st' = readbuf st"
  by (auto simp: to_sendbuf_def split: prod.splits)

lemma sendPacket_readbuf:
  "sendPacket len timer st = (rc, st') \<Longrightarrow>
   readbuf st' = readbuf st \<and> (rc = SUCCESS \<or> rc = FAILURE)"
  using sendPacket_frame [of len timer st rc st'] sendPacket_rc [of len timer st rc st']
  by (simp add: write_frame_def)

lemma cycle_PUBLISH_ack_readbuf:
  "cycle_PUBLISH_ack cfg timer msg st = (rc, ex, st') \<Longrightarrow>
   readbuf st' = readbuf st \<and> (rc = SUCCESS \<or> rc = FAILURE)"
  unfolding cycle_PUBLISH_ack_def MQTTSerialize_ack_def
  by (auto split: if_splits prod.splits dest!: to_sendbuf_readbuf sendPacket_readbuf)

lemma cycle_PUBLISH_readbuf:
  "cycle_PUBLISH cfg timer st = (rc, ex, st') \<Longrightarrow>
   readbuf st' = readbuf st \<and> (rc = SUCCESS \<or> rc = FAILURE)"
  unfolding cycle_PUBLISH_def
  using cycle_PUBLISH_deliver_delivered [of st cfg]
  by (auto split: option.splits dest!: cycle_PUBLISH_ack_readbuf simp: delivered_def)

lemma cycle_PUBREC_PUBREL_readbuf:
  "cycle_PUBREC_PUBREL cfg timer packet_type st = (rc, ex, st') \<Longrightarrow>
   readbuf st' = readbuf st \<and> (rc = SUCCESS \<or> rc = FAILURE)"
  unfolding cycle_PUBREC_PUBREL_def MQTTSerialize_ack_def freeQoS2msgid_def
  by (auto split: if_splits prod.splits option.splits dest!: to_sendbuf_readbuf sendPacket_readbuf)

lemma cycle_switch_readbuf:
  "cycle_switch cfg timer pt st = (rc, ex, st') \<Longrightarrow>
   readbuf st' = readbuf st
   \<and> (rc = SUCCESS \<or> rc = FAILURE \<or> rc = BUFFER_OVERFLOW)"
  unfolding cycle_switch_def
  by (auto split: if_splits dest!: cycle_PUBLISH_readbuf cycle_PUBREC_PUBREL_readbuf)

lemma cycle_type:
  assumes "cycle cfg timer st = (r, st')"
  shows "r = FAILURE \<or> r = BUFFER_OVERFLOW \<or> header_type (readbuf st' ! 0) = r"
proof -
  obtain pt st1 where rp: "readPacket cfg timer st = (pt, st1)"
    by (cases "readPacket cfg timer st") auto
  obtain rc2 ex st2 where sw: "cycle_switch cfg timer pt st1 = (rc2, ex, st2)"
    by (cases "cycle_switch cfg timer pt st1") auto
  have r: "r = (if rc2 = SUCCESS then pt else rc2)"
    and s: "st' = (if ex then st2 else snd (keepalive cfg st2))"
    using assms rp sw by (simp_all add: cycle_def)
  have rb: "readbuf st' = readbuf st1"
    using cycle_switch_readbuf [OF sw] keepalive_silent [of cfg st2] s by simp
  from readPacket_type [OF rp] cycle_switch_readbuf [OF sw] r rb show ?thesis
    by auto
qed

lemma waitfor_loop_type:
  "waitfor_loop cfg pt timer rc st = (pt, st') \<Longrightarrow> rc \<noteq> pt \<Longrightarrow>
   pt \<noteq> FAILURE \<Longrightarrow> pt \<noteq> BUFFER_OVERFLOW \<Longrightarrow> header_type (readbuf st' ! 0) = pt"
proof (induction cfg pt timer rc st rule: waitfor_loop.induct)
  case (1 cfg packet_type timer rc st)
  show ?case
  proof (cases "expired timer st")
    case True
    with "1.prems" show ?thesis
      by (simp add: waitfor_loop.simps [of cfg packet_type timer rc st])
  next
    case False
    obtain r1 st1 where c: "cycle cfg timer st = (r1, st1)"
      by (cases "cycle cfg timer st") auto
    show ?thesis
    proof (cases "r1 \<noteq> packet_type")
      case True
      with False c "1.prems" have call: "waitfor_loop cfg packet_type timer r1 st1 = (packet_type, st')"
        by (simp add: waitfor_loop.simps [of cfg packet_type timer rc st])
      show ?thesis
        by (rule "1.IH" [OF False c [symmetric] True call True "1.prems"(3) "1.prems"(4)])
    next
      case F: False
      with False c "1.prems" have "st' = st1"
        by (simp add: waitfor_loop.simps [of cfg packet_type timer rc st])
      with cycle_type [OF c] F "1.prems" show ?thesis by auto
    qed
  qed
qed

lemma publish_wait_acked:
  assumes "publish_wait cfg PUBACK timer SUCCESS st = (SUCCESS, st')"
  shows "\<exists>d i. MQTTDeserialize_ack (readbuf st') = Some (PUBACK, d, i)"
proof -
  obtain w st1 where wt: "waitfor cfg PUBACK timer st = (w, st1)"
    by (cases "waitfor cfg PUBACK timer st") auto
  have w: "w = PUBACK"
    using assms wt by (cases "w = PUBACK") (simp_all add: publish_wait_def code_defs)
  have ty: "header_type (readbuf st1 ! 0) = PUBACK"
    using wt [unfolded w waitfor_def]
    by (rule waitfor_loop_type) (simp_all add: code_defs type_defs)
  obtain a where a: "MQTTDeserialize_ack (readbuf st1) = Some a"
    using assms wt w by (cases "MQTTDeserialize_ack (readbuf st1)") (simp_all add: publish_wait_def code_defs)
  obtain t d i where tdi: "a = (t, d, i)" by (cases a) auto
  have "t = PUBACK"
    using a ty tdi by (auto simp: MQTTDeserialize_ack_def split: option.splits if_splits)
  moreover have "readbuf st' = readbuf st1"
    using assms unfolding publish_wait_def wt by (simp add: w a tdi split: if_splits) auto
  ultimately show ?thesis using a tdi by simp
qed

lemma publish_len_acked:
  assumes "publish_len cfg len timer QOS1 st = (SUCCESS, st')" and "MQTTCLIENT_QOS1 cfg"
  shows "\<exists>d i. MQTTDeserialize_ack (readbuf st') = Some (PUBACK, d, i)"
proof -
  obtain rc st1 where sp: "sendPacket len timer st = (rc, st1)"
    by (cases "sendPacket len timer st") auto
  have ok: "rc = SUCCESS"
    using assms sp by (cases "rc = SUCCESS") (simp_all add: publish_len_def)
  obtain rc2 st2 where w: "publish_wait cfg PUBACK timer SUCCESS st1 = (rc2, st2)"
    by (cases "publish_wait cfg PUBACK timer SUCCESS st1") auto
  have "rc2 = SUCCESS \<and> readbuf st' = readbuf st2"
    using assms unfolding publish_len_def sp
    by (simp add: ok publish_len_wait_def w split: if_splits)
  with publish_wait_acked [of cfg timer st1 st2] w show ?thesis by simp
qed

section \<open>The claims\<close>

text \<open>
  C1 (as stated, refuted). The claim has \<^verbatim>\<open>readPacket\<close> return a ``none'' value other than
  \<^verbatim>\<open>FAILURE\<close> when the timer expires before a byte is read. On a transport where nothing
  arrives, the read waits until the timer has expired and \<^verbatim>\<open>readPacket\<close> returns
  \<^verbatim>\<open>FAILURE\<close> itself, as it does when the first read fails with a transport error;
  \<^verbatim>\<open>cycle\<close> returns the same code in both cases, and \<^verbatim>\<open>yield\<close> on the silent
  transport returns \<^verbatim>\<open>FAILURE\<close>.
\<close>

theorem readPacket_timeout_counterexample:
  "net_rx quiet = []
   \<and> fst (readPacket cfg20 1000 quiet) = FAILURE
   \<and> expired 1000 (snd (readPacket cfg20 1000 quiet))
   \<and> fst (readPacket cfg20 1000 broken) = FAILURE
   \<and> fst (cycle cfg20 1000 quiet) = fst (cycle cfg20 1000 broken)
   \<and> fst (yield cfg20 1000 quiet) = FAILURE"
  by (simp add: quiet_def broken_def eval)

text \<open>
  C1 (amended). Whenever the first read of \<^verbatim>\<open>readPacket\<close> does not return one byte,
  because the timer expired (the read returns 0) or because the transport failed (it
  returns a negative number), \<^verbatim>\<open>readPacket\<close> returns \<^verbatim>\<open>FAILURE\<close>, which differs from
  \<^verbatim>\<open>BUFFER_OVERFLOW\<close>, and \<^verbatim>\<open>cycle\<close> returns \<^verbatim>\<open>FAILURE\<close> too: a caller of \<^verbatim>\<open>cycle\<close>
  sees the same code for a quiet timeout and for a transport error.
\<close>

theorem readPacket_none_is_FAILURE:
  assumes "ipstack_read 1 (left_ms timer st) st = (rc, d, st1)" and "rc \<noteq> 1"
  shows "fst (readPacket cfg timer st) = FAILURE \<and> fst (cycle cfg timer st) = FAILURE
         \<and> FAILURE \<noteq> BUFFER_OVERFLOW"
proof -
  from assms have r: "readPacket cfg timer st = (FAILURE, st1\<lparr>readbuf := store (readbuf st1) 0 d\<rparr>)"
    by (simp add: readPacket_def)
  from cycle_of_failed_read [OF r] r show ?thesis by (simp add: code_defs)
qed

text \<open>C1, at the client on whose transport nothing arrives: the read returns 0 at the deadline.\<close>

theorem readPacket_none_is_FAILURE_witness:
  "ipstack_read 1 (left_ms 1000 quiet) quiet = (0, [], quiet\<lparr>clock_ms := 1000\<rparr>)
   \<and> fst (readPacket cfg20 1000 quiet) = FAILURE \<and> fst (cycle cfg20 1000 quiet) = FAILURE"
proof -
  have h: "ipstack_read 1 (left_ms 1000 quiet) quiet = (0, [], quiet\<lparr>clock_ms := 1000\<rparr>)"
    by (simp add: quiet_def eval)
  from readPacket_none_is_FAILURE [OF h, of cfg20] h show ?thesis by simp
qed

text \<open>
  C2 (the code departs from the claim). The claim has \<^verbatim>\<open>waitfor\<close> return a negative
  code of \<^verbatim>\<open>cycle\<close> at once. Here the first \<^verbatim>\<open>cycle\<close> returns \<^verbatim>\<open>FAILURE\<close> (the read
  failed) with the CONNACK still unread; \<^verbatim>\<open>waitfor\<close> does not return it: it calls
  \<^verbatim>\<open>cycle\<close> again, reads the CONNACK and returns \<^verbatim>\<open>CONNACK\<close>.
\<close>

theorem waitfor_continues_after_FAILURE:
  "fst (cycle cfg20 30000 error_then_connack) = FAILURE
   \<and> net_rx (snd (cycle cfg20 30000 error_then_connack)) = [Data [0x20, 0x02, 0x00, 0x00] 5]
   \<and> fst (waitfor cfg20 CONNACK 30000 error_then_connack) = CONNACK
   \<and> net_rx (snd (waitfor cfg20 CONNACK 30000 error_then_connack)) = []"
  by (simp add: error_then_connack_def eval)

text \<open>
  C3 (as stated, refuted). The claim has \<^verbatim>\<open>connect\<close> resend the stored PUBLISH with
  the DUP flag set. After a QoS 1 publish whose PUBACK never came, a successful
  reconnect sends the CONNECT packet and then the stored bytes as they are: the PUBLISH
  serialized with DUP = 0, whose first byte has bit 3 clear.
\<close>

theorem connect_resend_counterexample:
  "fst (publish cfg20 ''x'' [0x79] 0 QOS1 False (client0\<lparr>isconnected := True\<rparr>)) = FAILURE
   \<and> inflightMsgid after_failed_publish = 1
   \<and> inflightQoS after_failed_publish = QOS1
   \<and> \<not> pubrel after_failed_publish
   \<and> \<not> isconnected after_failed_publish
   \<and> fst (connect cfg20 opts (after_failed_publish\<lparr>net_rx := reconnect_script\<rparr>)) = SUCCESS
   \<and> net_sent (snd (connect cfg20 opts (after_failed_publish\<lparr>net_rx := reconnect_script\<rparr>)))
       = net_sent after_failed_publish @ connect_bytes opts @ publish_bytes 0 QOS1 False 1 ''x'' [0x79]
   \<and> publish_bytes 0 QOS1 False 1 ''x'' [0x79] \<noteq> publish_bytes 1 QOS1 False 1 ''x'' [0x79]
   \<and> hd (publish_bytes 0 QOS1 False 1 ''x'' [0x79]) AND 8 = 0"
  by (simp add: after_failed_publish_eq) (simp add: reconnect_script_def eval)

text \<open>
  C3 (amended). Whenever \<^verbatim>\<open>connect\<close> returns \<^verbatim>\<open>SUCCESS\<close> for a client that holds an
  in-flight publish (\<^verbatim>\<open>inflightMsgid > 0\<close>) with \<^verbatim>\<open>pubrel\<close> false, with a QoS switch
  compiled in and buffers of \<^verbatim>\<open>MAX_MQTT_PACKET_SIZE\<close> bytes, it has sent the stored bytes
  of \<^verbatim>\<open>pubbuf\<close> unchanged, after whatever it sent before (the CONNECT packet): the PUBLISH
  as \<^verbatim>\<open>publish\<close> serialized it, with its DUP flag (0) and its packet id; \<^verbatim>\<open>pubbuf\<close> is
  left as it was. For a QoS 1 publish under \<^verbatim>\<open>MQTTCLIENT_QOS1\<close> the receive buffer then
  holds the PUBACK that was waited for.
\<close>

theorem connect_resends_stored_bytes:
  assumes c: "connect cfg options st = (SUCCESS, st')"
      and sw: "MQTTCLIENT_QOS1 cfg \<or> MQTTCLIENT_QOS2 cfg"
      and infl: "inflightMsgid st > 0" and np: "\<not> pubrel st"
      and wf1: "int (length (sendbuf st)) = MAX_MQTT_PACKET_SIZE cfg"
      and wf2: "int (length (pubbuf st)) = MAX_MQTT_PACKET_SIZE cfg"
      and wf3: "inflightLen st \<le> MAX_MQTT_PACKET_SIZE cfg"
  shows "pubbuf st' = pubbuf st
         \<and> (\<exists>pre post. net_sent st' = net_sent st @ pre @ take (nat (inflightLen st)) (pubbuf st) @ post)
         \<and> (MQTTCLIENT_QOS1 cfg \<and> inflightQoS st = QOS1 \<longrightarrow>
              (\<exists>d i. MQTTDeserialize_ack (readbuf st') = Some (PUBACK, d, i)))"
proof -
  define timer where "timer = countdown_ms (command_timeout_ms st) st"
  define st0 where "st0 = st\<lparr>keepAliveInterval := options_keepAliveInterval options,
                              cleansession := options_cleansession options\<rparr>"
  have nc: "\<not> isconnected st"
    using c by (cases "isconnected st") (simp_all add: connect_def code_defs)
  obtain len st1 where ser: "MQTTSerialize_connect cfg options st0 = (len, st1)"
    by (cases "MQTTSerialize_connect cfg options st0") auto
  have lp: "\<not> len \<le> 0"
    using c nc ser by (cases "len \<le> 0") (simp_all add: connect_def st0_def code_defs)
  obtain rc st2 where sp0: "sendPacket len timer st1 = (rc, st2)"
    by (cases "sendPacket len timer st1") auto
  have ok: "rc = SUCCESS"
    using c nc ser lp sp0
    by (cases "rc = SUCCESS") (simp_all add: connect_def st0_def timer_def Let_def)
  note sp = sp0 [unfolded ok]
  define st2' where "st2' = (if keepAliveInterval st2 > 0
                             then st2\<lparr>last_received := countdown (keepAliveInterval st2) st2\<rparr>
                             else st2)"
  obtain w st3 where wt: "waitfor cfg CONNACK timer st2' = (w, st3)"
    by (cases "waitfor cfg CONNACK timer st2'") auto
  define rc3 where "rc3 = (if w = CONNACK then
                             (case MQTTDeserialize_connack (readbuf st3) of
                                None \<Rightarrow> FAILURE
                              | Some (sessionPresent, connack_rc) \<Rightarrow> uint connack_rc)
                           else FAILURE)"
  obtain rc4 st4 where rs0: "connect_resend cfg timer rc3 st3 = (rc4, st4)"
    by (cases "connect_resend cfg timer rc3 st3") auto
  have cr: "connect cfg options st = (rc4, if rc4 = SUCCESS then st4\<lparr>isconnected := True\<rparr> else st4)"
    using nc ser lp sp wt rs0
    by (simp add: connect_def st0_def [symmetric] timer_def [symmetric] Let_def
                  st2'_def [symmetric] rc3_def [symmetric])
  with c have r4: "rc4 = SUCCESS" by simp
  with cr c have st': "st' = st4\<lparr>isconnected := True\<rparr>" by simp
  note rs = rs0 [unfolded r4]
  have k1: "kept st0 st1"
    using ser unfolding MQTTSerialize_connect_def by (rule to_sendbuf_kept)
  have k2: "kept st1 st2" using sp by (rule sendPacket_kept)
  have k2': "kept st2 st2'" by (simp add: st2'_def kept_refl)
  have k3: "kept st2' st3" using wt by (rule waitfor_kept)
  have k03: "kept st0 st3" using k1 k2 k2' k3 by (blast intro: kept_trans)
  then have f3: "pubbuf st3 = pubbuf st" "inflightLen st3 = inflightLen st"
      "inflightMsgid st3 = inflightMsgid st" "pubrel st3 = pubrel st"
      "length (sendbuf st3) = length (sendbuf st)" "inflightQoS st3 = inflightQoS st"
    and pre: "\<exists>pre. net_sent st3 = net_sent st @ pre"
    by (simp_all add: kept_def st0_def)
  define stR where "stR = st3\<lparr>sendbuf := store (sendbuf st3) 0
                                  (take (nat (MAX_MQTT_PACKET_SIZE cfg)) (pubbuf st3))\<rparr>"
  have "connect_resend cfg timer rc3 st3
          = publish_len cfg (inflightLen st3) timer (inflightQoS st3) stR"
    using sw infl np f3 by (simp add: connect_resend_def stR_def)
  with rs have pl: "publish_len cfg (inflightLen st3) timer (inflightQoS st3) stR = (SUCCESS, st4)"
    by simp
  from publish_len_sent [OF pl] obtain post where
    p4: "pubbuf st4 = pubbuf stR"
    and s4: "net_sent st4 = net_sent stR @ take (nat (inflightLen st3)) (sendbuf stR) @ post"
    by blast
  have "take (nat (inflightLen st)) (sendbuf stR) = take (nat (inflightLen st)) (pubbuf st)"
  proof -
    have a: "take (nat (MAX_MQTT_PACKET_SIZE cfg)) (pubbuf st) = pubbuf st"
      using wf2 by simp
    have "take (nat (inflightLen st)) (store (sendbuf st3) 0 (pubbuf st))
            = take (nat (inflightLen st)) (pubbuf st)"
      using wf1 wf2 wf3 f3(5) by (intro take_store_prefix) auto
    then show ?thesis by (simp add: stR_def f3 a)
  qed
  with s4 have s4': "net_sent st4 = net_sent st3 @ take (nat (inflightLen st)) (pubbuf st) @ post"
    by (simp add: stR_def f3)
  from pre obtain pre where "net_sent st3 = net_sent st @ pre" by blast
  with s4' have "net_sent st' = net_sent st @ pre @ take (nat (inflightLen st)) (pubbuf st) @ post"
    by (simp add: st')
  then have "\<exists>pre post. net_sent st' = net_sent st @ pre @ take (nat (inflightLen st)) (pubbuf st) @ post"
    by blast
  moreover have "pubbuf st' = pubbuf st"
    using p4 f3 by (simp add: st' stR_def)
  moreover have "\<exists>d i. MQTTDeserialize_ack (readbuf st') = Some (PUBACK, d, i)"
    if "MQTTCLIENT_QOS1 cfg" and "inflightQoS st = QOS1"
  proof -
    from pl that(2) have "publish_len cfg (inflightLen st3) timer QOS1 stR = (SUCCESS, st4)"
      by (simp add: f3)
    from publish_len_acked [OF this that(1)] show ?thesis by (simp add: st')
  qed
  ultimately show ?thesis by simp
qed

text \<open>
  C3, at the reconnect after the failed QoS 1 publish: the stored bytes are the PUBLISH
  serialized with DUP = 0, and they are sent again as they are.
\<close>

theorem connect_resends_stored_bytes_witness:
  "connect cfg20 opts reconnecting = (SUCCESS, snd (connect cfg20 opts reconnecting))
   \<and> inflightMsgid reconnecting > 0 \<and> \<not> pubrel reconnecting
   \<and> inflightQoS reconnecting = QOS1
   \<and> take (nat (inflightLen reconnecting)) (pubbuf reconnecting) = publish_bytes 0 QOS1 False 1 ''x'' [0x79]
   \<and> pubbuf (snd (connect cfg20 opts reconnecting)) = pubbuf reconnecting
   \<and> (\<exists>pre post. net_sent (snd (connect cfg20 opts reconnecting))
          = net_sent reconnecting @ pre
              @ take (nat (inflightLen reconnecting)) (pubbuf reconnecting) @ post)
   \<and> (\<exists>d i. MQTTDeserialize_ack (readbuf (snd (connect cfg20 opts reconnecting))) = Some (PUBACK, d, i))"
proof -
  have c: "connect cfg20 opts reconnecting = (SUCCESS, snd (connect cfg20 opts reconnecting))"
    by (simp add: reconnecting_def after_failed_publish_eq) (simp add: reconnect_script_def eval)
  have h: "MQTTCLIENT_QOS1 cfg20 \<or> MQTTCLIENT_QOS2 cfg20" "inflightMsgid reconnecting > 0"
      "\<not> pubrel reconnecting"
      "int (length (sendbuf reconnecting)) = MAX_MQTT_PACKET_SIZE cfg20"
      "int (length (pubbuf reconnecting)) = MAX_MQTT_PACKET_SIZE cfg20"
      "inflightLen reconnecting \<le> MAX_MQTT_PACKET_SIZE cfg20"
    and q: "MQTTCLIENT_QOS1 cfg20" "inflightQoS reconnecting = QOS1"
    and b: "take (nat (inflightLen reconnecting)) (pubbuf reconnecting) = publish_bytes 0 QOS1 False 1 ''x'' [0x79]"
    by (simp_all add: reconnecting_def after_failed_publish_eq) (simp_all add: eval)
  from connect_resends_stored_bytes [OF c h] c h q b show ?thesis by simp
qed

text \<open>
  C4 (the code departs from the claim). The claim has \<^verbatim>\<open>cycle\<close> set the in-flight
  \<^verbatim>\<open>pubrel\<close> flag when a PUBREC carries the id of the in-flight publish. Here the PUBREC
  for the in-flight id 7 is answered by the PUBREL for 7, and \<^verbatim>\<open>pubrel\<close> is still false.
\<close>

theorem cycle_PUBREC_leaves_pubrel_false:
  "fst (cycle cfg20 1000 pubrec_for_inflight) = PUBREC
   \<and> net_sent (snd (cycle cfg20 1000 pubrec_for_inflight)) = ack_bytes PUBREL 0 7
   \<and> inflightMsgid (snd (cycle cfg20 1000 pubrec_for_inflight)) = 7
   \<and> pubrel (snd (cycle cfg20 1000 pubrec_for_inflight)) = False"
  by (simp add: pubrec_for_inflight_def eval)

text \<open>
  C5 (as stated, refuted). The claim has \<^verbatim>\<open>isconnected\<close> stay true when the broker
  rejects a subscription. Here \<^verbatim>\<open>subscribe\<close> returns 0x80 and installs no handler, and
  the client that was connected is no longer.
\<close>

theorem subscribe_rejected_counterexample:
  "isconnected suback_rejects
   \<and> fst (subscribe cfg20 ''a/b'' QOS1 (Some handler0) suback_rejects) = 0x80
   \<and> messageHandlers (snd (subscribe cfg20 ''a/b'' QOS1 (Some handler0) suback_rejects))
       = messageHandlers suback_rejects
   \<and> \<not> isconnected (snd (subscribe cfg20 ''a/b'' QOS1 (Some handler0) suback_rejects))"
  by (simp add: suback_rejects_def handler0_def eval)

text \<open>
  C5 (amended). Whenever a connected client sends its SUBSCRIBE, \<^verbatim>\<open>waitfor\<close> returns
  the SUBACK and the SUBACK's first return code is 0x80, \<^verbatim>\<open>subscribe\<close> returns 0x80,
  leaves the handler table as it was, and clears \<^verbatim>\<open>isconnected\<close>: every result other
  than \<^verbatim>\<open>SUCCESS\<close> disconnects the client, the broker's rejection included.
\<close>

theorem subscribe_rejected_disconnects:
  assumes con: "isconnected st"
      and ser: "MQTTSerialize_subscribe cfg (packetid st) topicFilter q (snd (getNext st)) = (len, st2)"
      and len: "len > 0"
      and snd: "sendPacket len (countdown_ms (command_timeout_ms st) st) st2 = (SUCCESS, st3)"
      and wt: "waitfor cfg SUBACK (countdown_ms (command_timeout_ms st) st) st3 = (SUBACK, st4)"
      and rej: "MQTTDeserialize_suback (readbuf st4) = Some (mypacketid, 0x80 # codes)"
  shows "fst (subscribe cfg topicFilter q fp st) = 0x80
         \<and> messageHandlers (snd (subscribe cfg topicFilter q fp st)) = messageHandlers st
         \<and> \<not> isconnected (snd (subscribe cfg topicFilter q fp st))"
proof -
  have s: "subscribe cfg topicFilter q fp st = (0x80, st4\<lparr>isconnected := False\<rparr>)"
    using assms by (simp add: subscribe_def Let_def getNext_def code_defs)
  have k2: "kept (snd (getNext st)) st2"
    using ser unfolding MQTTSerialize_subscribe_def by (rule to_sendbuf_kept)
  have k3: "kept st2 st3" using snd by (rule sendPacket_kept)
  have k4: "kept st3 st4" using wt by (rule waitfor_kept)
  from k2 k3 k4 have "messageHandlers st4 = messageHandlers st"
    by (simp add: kept_def getNext_def)
  with s show ?thesis by simp
qed

text \<open>C5, at the connected client whose SUBACK carries 0x80.\<close>

theorem subscribe_rejected_disconnects_witness:
  "isconnected suback_rejects
   \<and> fst (subscribe cfg20 ''a/b'' QOS1 (Some handler0) suback_rejects) = 0x80
   \<and> messageHandlers (snd (subscribe cfg20 ''a/b'' QOS1 (Some handler0) suback_rejects))
        = messageHandlers suback_rejects
   \<and> \<not> isconnected (snd (subscribe cfg20 ''a/b'' QOS1 (Some handler0) suback_rejects))"
proof -
  define st2 where "st2 = snd (MQTTSerialize_subscribe cfg20 (packetid suback_rejects) ''a/b'' QOS1
                                 (snd (getNext suback_rejects)))"
  define st3 where "st3 = snd (sendPacket 10 (countdown_ms (command_timeout_ms suback_rejects) suback_rejects) st2)"
  define st4 where "st4 = snd (waitfor cfg20 SUBACK (countdown_ms (command_timeout_ms suback_rejects) suback_rejects) st3)"
  have con: "isconnected suback_rejects" by (simp add: suback_rejects_def eval)
  have ser: "MQTTSerialize_subscribe cfg20 (packetid suback_rejects) ''a/b'' QOS1
               (snd (getNext suback_rejects)) = (10, st2)"
    unfolding st2_def by (simp add: suback_rejects_def eval)
  have len: "(10::int) > 0" by simp
  have sp: "sendPacket 10 (countdown_ms (command_timeout_ms suback_rejects) suback_rejects) st2 = (SUCCESS, st3)"
    unfolding st3_def st2_def by (simp add: suback_rejects_def eval)
  have wt: "waitfor cfg20 SUBACK (countdown_ms (command_timeout_ms suback_rejects) suback_rejects) st3 = (SUBACK, st4)"
    unfolding st4_def st3_def st2_def by (simp add: suback_rejects_def eval)
  have rej: "MQTTDeserialize_suback (readbuf st4) = Some (1, 0x80 # [])"
    unfolding st4_def st3_def st2_def by (simp add: suback_rejects_def eval)
  from subscribe_rejected_disconnects [OF con ser len sp wt rej, of "Some handler0"] con
  show ?thesis by simp
qed

text \<open>
  C6 (as stated, refuted). The claim has \<^verbatim>\<open>isconnected\<close> become false when \<^verbatim>\<open>cycle\<close>
  meets a packet too long for the buffer. Here the Remaining Length is 100 for buffers of
  20 bytes: \<^verbatim>\<open>cycle\<close> returns \<^verbatim>\<open>BUFFER_OVERFLOW\<close> and the client is still connected.
\<close>

theorem cycle_overflow_counterexample:
  "MAX_MQTT_PACKET_SIZE cfg20 = 20
   \<and> fst (decodePacket 995 (snd (snd (ipstack_read 1 1000 oversized_publish)))) = (1, 100)
   \<and> fst (cycle cfg20 1000 oversized_publish) = BUFFER_OVERFLOW
   \<and> isconnected (snd (cycle cfg20 1000 oversized_publish))"
  by (simp add: oversized_publish_def eval)

text \<open>
  C6 (amended). Whenever \<^verbatim>\<open>cycle\<close> reads the header byte of a packet and a Remaining
  Length greater than \<^verbatim>\<open>MAX_MQTT_PACKET_SIZE\<close>, it returns \<^verbatim>\<open>BUFFER_OVERFLOW\<close> and leaves
  \<^verbatim>\<open>isconnected\<close> as it was (it is the operations waiting for an ack that clear the
  flag when their wait fails).
\<close>

theorem cycle_overflow_keeps_isconnected:
  assumes r1: "ipstack_read 1 (left_ms timer st) st = (1, d1, st1)"
      and d: "decodePacket (left_ms timer st1) (st1\<lparr>readbuf := store (readbuf st1) 0 d1\<rparr>)
                = ((dlen, rem_len), st2)"
      and big: "rem_len > MAX_MQTT_PACKET_SIZE cfg"
  shows "fst (cycle cfg timer st) = BUFFER_OVERFLOW
         \<and> isconnected (snd (cycle cfg timer st)) = isconnected st"
proof -
  have "rem_len > MAX_MQTT_PACKET_SIZE cfg - (1 + int (length (MQTTPacket_encode rem_len)))"
    using big by simp
  with r1 d have r: "readPacket cfg timer st =
      (BUFFER_OVERFLOW, st2\<lparr>readbuf := store (readbuf st2) 1 (MQTTPacket_encode rem_len)\<rparr>)"
    by (simp add: readPacket_def Let_def)
  from cycle_of_failed_read [OF r] have c: "cycle cfg timer st =
      (BUFFER_OVERFLOW, snd (keepalive cfg (st2\<lparr>readbuf := store (readbuf st2) 1 (MQTTPacket_encode rem_len)\<rparr>)))"
    by simp
  from cycle_kept [OF c] have "isconnected (snd (cycle cfg timer st)) = isconnected st"
    by (simp add: c kept_def)
  with c show ?thesis by simp
qed

text \<open>C6, at the PUBLISH with Remaining Length 100 for buffers of 20 bytes.\<close>

theorem cycle_overflow_keeps_isconnected_witness:
  "(100::int) > MAX_MQTT_PACKET_SIZE cfg20
   \<and> fst (cycle cfg20 1000 oversized_publish) = BUFFER_OVERFLOW
   \<and> isconnected (snd (cycle cfg20 1000 oversized_publish)) = isconnected oversized_publish"
proof -
  have r1: "ipstack_read 1 (left_ms 1000 oversized_publish) oversized_publish
              = (1, [0x30], oversized_publish\<lparr>net_rx := [Data [0x64] 0], clock_ms := 5\<rparr>)"
    by (simp add: oversized_publish_def eval)
  have d: "decodePacket (left_ms 1000 (oversized_publish\<lparr>net_rx := [Data [0x64] 0], clock_ms := 5\<rparr>))
             ((oversized_publish\<lparr>net_rx := [Data [0x64] 0], clock_ms := 5\<rparr>)
                \<lparr>readbuf := store (readbuf (oversized_publish\<lparr>net_rx := [Data [0x64] 0], clock_ms := 5\<rparr>)) 0 [0x30]\<rparr>)
           = ((1, 100), snd (decodePacket 995
                ((oversized_publish\<lparr>net_rx := [Data [0x64] 0], clock_ms := 5\<rparr>)
                \<lparr>readbuf := store (readbuf (oversized_publish\<lparr>net_rx := [Data [0x64] 0], clock_ms := 5\<rparr>)) 0 [0x30]\<rparr>)))"
    by (simp add: oversized_publish_def eval)
  have big: "(100::int) > MAX_MQTT_PACKET_SIZE cfg20" by (simp add: cfg20_def)
  from cycle_overflow_keeps_isconnected [OF r1 d big] big show ?thesis by simp
qed

text \<open>
  C7 (the code departs from the claim). The claim has the decoding of a Remaining Length
  that needs a fifth byte fail, with an error reported to the caller. Here four bytes
  with the continuation bit are read; \<^verbatim>\<open>decodePacket\<close> returns its byte count 5, not an
  error, with the value 0 of the four bytes read; \<^verbatim>\<open>readPacket\<close> drops that result and
  reads a PINGRESP of length 0, which \<^verbatim>\<open>cycle\<close> returns as a packet received. The fifth
  byte stays in the stream and will be read as the next packet's header.
\<close>

theorem decodePacket_fifth_byte_not_reported:
  "fst (decodePacket 1000 (client0\<lparr>net_rx := [Data [0x80, 0x80, 0x80, 0x80, 0x01] 5]\<rparr>)) = (5, 0)
   \<and> net_rx (snd (decodePacket 1000 (client0\<lparr>net_rx := [Data [0x80, 0x80, 0x80, 0x80, 0x01] 5]\<rparr>)))
       = [Data [0x01] 0]
   \<and> fst (readPacket cfg20 1000 five_length_bytes) = PINGRESP
   \<and> fst (cycle cfg20 1000 five_length_bytes) = PINGRESP
   \<and> net_rx (snd (cycle cfg20 1000 five_length_bytes)) = [Data [0x01] 0]"
  by (simp add: five_length_bytes_def eval)

text \<open>
  C8. The topic matcher gives the six specified answers: the filters
  \<^verbatim>\<open>sport/+/player1\<close>, \<^verbatim>\<open>sport/#\<close>, \<^verbatim>\<open>#\<close> and \<^verbatim>\<open>+/+\<close> match their topics, while
  \<^verbatim>\<open>sport/+\<close> does not match \<^verbatim>\<open>sport/tennis/player1\<close> and \<^verbatim>\<open>a/+\<close> does not match
  \<^verbatim>\<open>a\<close>.
\<close>

theorem isTopicMatched_six_cases:
  "isTopicMatched ''sport/+/player1'' ''sport/tennis/player1'' = True
   \<and> isTopicMatched ''sport/#'' ''sport/tennis/player1'' = True
   \<and> isTopicMatched ''sport/+'' ''sport/tennis/player1'' = False
   \<and> isTopicMatched ''#'' ''any/topic'' = True
   \<and> isTopicMatched ''+/+'' ''a/b'' = True
   \<and> isTopicMatched ''a/+'' ''a'' = False"
  by code_simp






end
